theory Spec2Isabelle
  imports Main
begin

section \<open>Strings as byte sequences\<close>

text \<open>
  A Go \<^verbatim>\<open>string\<close> is a sequence of bytes, indexed by byte position; it is modelled as
  a \<^typ>\<open>string\<close> (a list of 8-bit characters). \<open>slice s a b\<close> is Go's \<^verbatim>\<open>s[a:b]\<close>;
  every use below has \<open>a \<le> b \<le> length s\<close>, where Go does not panic.
\<close>

definition byte :: "char \<Rightarrow> nat" where
  "byte c = of_char c"

definition slice :: "string \<Rightarrow> nat \<Rightarrow> nat \<Rightarrow> string" where
  "slice s a b = take (b - a) (drop a s)"

section \<open>highlighter.go: the escape-aware segmenter\<close>

record segment =
  text' :: string
  isEscape :: bool

definition csiParamStart :: nat where "csiParamStart = 0x20"
definition csiParamEnd :: nat where "csiParamEnd = 0x3F"
definition csiFinalStart :: nat where "csiFinalStart = 0x40"
definition csiFinalEnd :: nat where "csiFinalEnd = 0x7E"
definition csiIntermEnd :: nat where "csiIntermEnd = 0x2F"
definition escapeChar :: char where "escapeChar = CHR 0x1B"
definition csiBracket :: char where "csiBracket = CHR ''[''"

definition isCSIParamByte :: "char \<Rightarrow> bool" where
  "isCSIParamByte b = (byte b \<ge> csiParamStart \<and> byte b \<le> csiParamEnd)"

definition isCSIFinalByte :: "char \<Rightarrow> bool" where
  "isCSIFinalByte b = (byte b \<ge> csiFinalStart \<and> byte b \<le> csiFinalEnd)"

definition isCSIIntermediateByte :: "char \<Rightarrow> bool" where
  "isCSIIntermediateByte b = (byte b \<ge> csiParamStart \<and> byte b \<le> csiIntermEnd)"

text \<open>The \<^verbatim>\<open>for\<close> loop of \<^verbatim>\<open>skipCSISequence\<close>, then its trailing \<^verbatim>\<open>if\<close>.\<close>

function skipCSIParams :: "string \<Rightarrow> nat \<Rightarrow> nat" where
  "skipCSIParams input i =
     (if i < length input \<and> isCSIParamByte (input ! i)
      then skipCSIParams input (i + 1) else i)"
  by pat_completeness auto
termination
  by (relation "measure (\<lambda>(input, i). length input - i)") auto

declare skipCSIParams.simps [simp del]

definition skipCSISequence :: "string \<Rightarrow> nat \<Rightarrow> nat" where
  "skipCSISequence input i0 =
     (let i = skipCSIParams input i0
      in if i < length input \<and> isCSIFinalByte (input ! i) then i + 1 else i)"

function skipIntermediates :: "string \<Rightarrow> nat \<Rightarrow> nat" where
  "skipIntermediates input i =
     (if i < length input \<and> isCSIIntermediateByte (input ! i)
      then skipIntermediates input (i + 1) else i)"
  by pat_completeness auto
termination
  by (relation "measure (\<lambda>(input, i). length input - i)") auto

declare skipIntermediates.simps [simp del]

definition skipOtherEscapeSequence :: "string \<Rightarrow> nat \<Rightarrow> nat" where
  "skipOtherEscapeSequence input i0 =
     (let i = skipIntermediates input i0
      in if i < length input then i + 1 else i)"

lemma skipCSIParams_ge: "i \<le> skipCSIParams input i"
proof (induction input i rule: skipCSIParams.induct)
  case (1 input i)
  show ?case
  proof (cases "i < length input \<and> isCSIParamByte (input ! i)")
    case True
    with 1 have "i + 1 \<le> skipCSIParams input (i + 1)" by simp
    moreover from True have "skipCSIParams input i = skipCSIParams input (i + 1)"
      by (subst skipCSIParams.simps) simp
    ultimately show ?thesis by simp
  next
    case False
    then have "skipCSIParams input i = i" by (subst skipCSIParams.simps) auto
    then show ?thesis by simp
  qed
qed

lemma skipIntermediates_ge: "i \<le> skipIntermediates input i"
proof (induction input i rule: skipIntermediates.induct)
  case (1 input i)
  show ?case
  proof (cases "i < length input \<and> isCSIIntermediateByte (input ! i)")
    case True
    with 1 have "i + 1 \<le> skipIntermediates input (i + 1)" by simp
    moreover from True have "skipIntermediates input i = skipIntermediates input (i + 1)"
      by (subst skipIntermediates.simps) simp
    ultimately show ?thesis by simp
  next
    case False
    then have "skipIntermediates input i = i" by (subst skipIntermediates.simps) auto
    then show ?thesis by simp
  qed
qed

lemma skipCSISequence_ge: "i \<le> skipCSISequence input i"
  using skipCSIParams_ge [of i input] by (simp add: skipCSISequence_def Let_def)

lemma skipOtherEscapeSequence_ge: "i \<le> skipOtherEscapeSequence input i"
  using skipIntermediates_ge [of i input] by (simp add: skipOtherEscapeSequence_def Let_def)

text \<open>
  The loop of \<^verbatim>\<open>extractSegments\<close>: \<open>i\<close> is the cursor, \<open>textBuf\<close> the pending plain text
  and \<open>segments\<close> the slice built so far. Both escape branches flush the buffer when it
  is not empty, then append the control sequence \<^verbatim>\<open>input[start:i]\<close>.
\<close>

definition flushText :: "string \<Rightarrow> segment list \<Rightarrow> segment list" where
  "flushText textBuf segments =
     (if length textBuf > 0 then segments @ [\<lparr>text' = textBuf, isEscape = False\<rparr>]
      else segments)"

function extractSegments_loop :: "string \<Rightarrow> nat \<Rightarrow> string \<Rightarrow> segment list \<Rightarrow> segment list" where
  "extractSegments_loop input i textBuf segments =
     (if i < length input then
        (if input ! i = escapeChar \<and> i + 1 < length input then
           (if input ! (i + 1) = csiBracket then
              extractSegments_loop input (skipCSISequence input (i + 2)) []
                (flushText textBuf segments @
                   [\<lparr>text' = slice input i (skipCSISequence input (i + 2)), isEscape = True\<rparr>])
            else
              extractSegments_loop input (skipOtherEscapeSequence input (i + 1)) []
                (flushText textBuf segments @
                   [\<lparr>text' = slice input i (skipOtherEscapeSequence input (i + 1)),
                     isEscape = True\<rparr>]))
         else extractSegments_loop input (i + 1) (textBuf @ [input ! i]) segments)
      else flushText textBuf segments)"
  by pat_completeness auto
termination
proof (relation "measure (\<lambda>(input, i, textBuf, segments). length input - i)")
  show "wf (measure (\<lambda>(input, i, textBuf, segments). length input - i))" by simp
next
  fix input :: string and i :: nat and textBuf :: string and segments :: "segment list"
  assume "i < length input"
  moreover have "i + 2 \<le> skipCSISequence input (i + 2)" by (rule skipCSISequence_ge)
  ultimately show "((input, skipCSISequence input (i + 2), [],
        flushText textBuf segments @
          [\<lparr>text' = slice input i (skipCSISequence input (i + 2)), isEscape = True\<rparr>]),
       input, i, textBuf, segments)
      \<in> measure (\<lambda>(input, i, textBuf, segments). length input - i)"
    by simp
next
  fix input :: string and i :: nat and textBuf :: string and segments :: "segment list"
  assume "i < length input"
  moreover have "i + 1 \<le> skipOtherEscapeSequence input (i + 1)"
    by (rule skipOtherEscapeSequence_ge)
  ultimately show "((input, skipOtherEscapeSequence input (i + 1), [],
        flushText textBuf segments @
          [\<lparr>text' = slice input i (skipOtherEscapeSequence input (i + 1)), isEscape = True\<rparr>]),
       input, i, textBuf, segments)
      \<in> measure (\<lambda>(input, i, textBuf, segments). length input - i)"
    by simp
next
  fix input :: string and i :: nat and textBuf :: string and segments :: "segment list"
  assume "i < length input"
  then show "((input, i + 1, textBuf @ [input ! i], segments), input, i, textBuf, segments)
      \<in> measure (\<lambda>(input, i, textBuf, segments). length input - i)"
    by simp
qed

declare extractSegments_loop.simps [simp del]

definition extractSegments :: "string \<Rightarrow> segment list" where
  "extractSegments input = extractSegments_loop input 0 [] []"

text \<open>The loop of \<^verbatim>\<open>StripANSI\<close>; \<open>buf\<close> is the output buffer.\<close>

function StripANSI_loop :: "string \<Rightarrow> nat \<Rightarrow> string \<Rightarrow> string" where
  "StripANSI_loop input i buf =
     (if i < length input then
        (if input ! i = escapeChar \<and> i + 1 < length input \<and> input ! (i + 1) = csiBracket
         then StripANSI_loop input (skipCSISequence input (i + 2)) buf
         else if input ! i = escapeChar
         then StripANSI_loop input (skipOtherEscapeSequence input (i + 1)) buf
         else StripANSI_loop input (i + 1) (buf @ [input ! i]))
      else buf)"
  by pat_completeness auto
termination
proof (relation "measure (\<lambda>(input, i, buf). length input - i)")
  show "wf (measure (\<lambda>(input, i, buf). length input - i))" by simp
next
  fix input :: string and i :: nat and buf :: string
  assume "i < length input"
  moreover have "i + 2 \<le> skipCSISequence input (i + 2)" by (rule skipCSISequence_ge)
  ultimately show "((input, skipCSISequence input (i + 2), buf), input, i, buf)
      \<in> measure (\<lambda>(input, i, buf). length input - i)"
    by simp
next
  fix input :: string and i :: nat and buf :: string
  assume "i < length input"
  moreover have "i + 1 \<le> skipOtherEscapeSequence input (i + 1)"
    by (rule skipOtherEscapeSequence_ge)
  ultimately show "((input, skipOtherEscapeSequence input (i + 1), buf), input, i, buf)
      \<in> measure (\<lambda>(input, i, buf). length input - i)"
    by simp
next
  fix input :: string and i :: nat and buf :: string
  assume "i < length input"
  then show "((input, i + 1, buf @ [input ! i]), input, i, buf)
      \<in> measure (\<lambda>(input, i, buf). length input - i)"
    by simp
qed

declare StripANSI_loop.simps [simp del]

definition StripANSI :: "string \<Rightarrow> string" where
  "StripANSI input = StripANSI_loop input 0 []"





section \<open>Go library functions used by the lexer\<close>

text \<open>
  \<^verbatim>\<open>strings.ToLower\<close>, \<^verbatim>\<open>strings.TrimSpace\<close>, \<^verbatim>\<open>strings.Contains\<close>, \<^verbatim>\<open>strings.HasPrefix\<close>
  and \<^verbatim>\<open>strings.HasSuffix\<close> on byte strings. Case folding and white space are those of
  ASCII, given as tables: on a string of ASCII bytes they are what Go computes (Go also
  folds and trims the non-ASCII code points of Unicode, which are several bytes each).
\<close>

definition toLowerByte :: "char \<Rightarrow> char" where
  "toLowerByte c =
     (case map_of (zip ''ABCDEFGHIJKLMNOPQRSTUVWXYZ'' ''abcdefghijklmnopqrstuvwxyz'') c of
        Some d \<Rightarrow> d
      | None \<Rightarrow> c)"

definition ToLower :: "string \<Rightarrow> string" where
  "ToLower s = map toLowerByte s"

definition isSpaceByte :: "char \<Rightarrow> bool" where
  "isSpaceByte c =
     (c \<in> set [CHR 0x09, CHR 0x0A, CHR 0x0B, CHR 0x0C, CHR 0x0D, CHR '' ''])"

definition TrimSpace :: "string \<Rightarrow> string" where
  "TrimSpace s = rev (dropWhile isSpaceByte (rev (dropWhile isSpaceByte s)))"

fun HasPrefix :: "string \<Rightarrow> string \<Rightarrow> bool" where
  "HasPrefix s [] = True"
| "HasPrefix [] (p # ps) = False"
| "HasPrefix (c # cs) (p # ps) = (c = p \<and> HasPrefix cs ps)"

definition HasSuffix :: "string \<Rightarrow> string \<Rightarrow> bool" where
  "HasSuffix s suffix = HasPrefix (rev s) (rev suffix)"

fun Contains :: "string \<Rightarrow> string \<Rightarrow> bool" where
  "Contains [] substr = (substr = [])"
| "Contains (c # cs) substr = (HasPrefix (c # cs) substr \<or> Contains cs substr)"

section \<open>Regular expressions\<close>

text \<open>
  The patterns of \<^verbatim>\<open>lexer.go\<close> are values of the datatype \<open>regex\<close>, written after
  their source text, and are run by a backtracking matcher that returns every way of
  matching a prefix of the text, in the order of preference of Go's \<^verbatim>\<open>regexp\<close>
  (leftmost-first: an alternation tries its left branch first, a greedy repetition one more
  iteration first, a lazy repetition one fewer). A state is the text left to read and the
  texts captured by the groups so far. Every repeated expression of the patterns below
  reads at least one byte per iteration, so an iteration that reads nothing is not
  followed. The character classes of the patterns are ASCII classes, and \<^verbatim>\<open>.\<close> is any
  byte but a newline.
\<close>

datatype regex =
    Cls "char \<Rightarrow> bool"
  | Cat regex regex
  | Alt regex regex
  | Opt regex
  | Star regex
  | Lazy regex
  | Grp nat regex
  | Eps
  | Eot

type_synonym mstate = "string \<times> string list"

primrec runStar :: "(mstate \<Rightarrow> mstate list) \<Rightarrow> nat \<Rightarrow> mstate \<Rightarrow> mstate list" where
  "runStar f 0 st = [st]"
| "runStar f (Suc n) st =
     concat (map (runStar f n) (filter (\<lambda>st'. length (fst st') < length (fst st)) (f st))) @ [st]"

primrec runLazy :: "(mstate \<Rightarrow> mstate list) \<Rightarrow> nat \<Rightarrow> mstate \<Rightarrow> mstate list" where
  "runLazy f 0 st = [st]"
| "runLazy f (Suc n) st =
     st # concat (map (runLazy f n) (filter (\<lambda>st'. length (fst st') < length (fst st)) (f st)))"

primrec run :: "regex \<Rightarrow> mstate \<Rightarrow> mstate list" where
  "run (Cls P) st =
     (case fst st of [] \<Rightarrow> [] | c # cs \<Rightarrow> if P c then [(cs, snd st)] else [])"
| "run (Cat a b) st = concat (map (run b) (run a st))"
| "run (Alt a b) st = run a st @ run b st"
| "run (Opt a) st = run a st @ [st]"
| "run (Star a) st = runStar (run a) (length (fst st)) st"
| "run (Lazy a) st = runLazy (run a) (length (fst st)) st"
| "run (Grp i a) st =
     map (\<lambda>st'. (fst st', (snd st')[i := take (length (fst st) - length (fst st')) (fst st)]))
       (run a st)"
| "run Eps st = [st]"
| "run Eot st = (if fst st = [] then [st] else [])"

text \<open>
  \<^verbatim>\<open>FindStringSubmatch\<close> for a pattern anchored at the start of the text: the captures of
  the preferred match, \<open>matches ! i\<close> being group \<open>i\<close> (the empty string for a group that
  took no part), or \<open>None\<close> for Go's \<^verbatim>\<open>nil\<close>. \<^verbatim>\<open>MatchString\<close> for an anchored pattern, and
  for a pattern with no anchor, which may match at any position.
\<close>

definition FindStringSubmatch :: "regex \<Rightarrow> nat \<Rightarrow> string \<Rightarrow> string list option" where
  "FindStringSubmatch r ngroups s =
     (case run r (s, replicate (ngroups + 1) []) of
        [] \<Rightarrow> None
      | st # _ \<Rightarrow> Some ((snd st)[0 := take (length s - length (fst st)) s]))"

definition MatchString :: "regex \<Rightarrow> string \<Rightarrow> bool" where
  "MatchString r s = (run r (s, []) \<noteq> [])"

fun MatchAnywhere :: "regex \<Rightarrow> string \<Rightarrow> bool" where
  "MatchAnywhere r [] = MatchString r []"
| "MatchAnywhere r (c # cs) = (MatchString r (c # cs) \<or> MatchAnywhere r cs)"

text \<open>Derived forms: a sequence, \<^verbatim>\<open>r+\<close>, \<^verbatim>\<open>r{n}\<close>, \<^verbatim>\<open>r{n,m}\<close>, a literal, an alternation.\<close>

fun reSeq :: "regex list \<Rightarrow> regex" where
  "reSeq [] = Eps"
| "reSeq [r] = r"
| "reSeq (r # rs) = Cat r (reSeq rs)"

definition rePlus :: "regex \<Rightarrow> regex" where
  "rePlus r = Cat r (Star r)"

fun reUpTo :: "nat \<Rightarrow> regex \<Rightarrow> regex" where
  "reUpTo 0 r = Eps"
| "reUpTo (Suc n) r = Opt (Cat r (reUpTo n r))"

fun reExactly :: "nat \<Rightarrow> regex \<Rightarrow> regex \<Rightarrow> regex" where
  "reExactly 0 r rest = rest"
| "reExactly (Suc n) r rest = Cat r (reExactly n r rest)"

definition reRep :: "nat \<Rightarrow> nat \<Rightarrow> regex \<Rightarrow> regex" where
  "reRep n m r = reExactly n r (reUpTo (m - n) r)"

definition Chr :: "char \<Rightarrow> regex" where
  "Chr c = Cls (\<lambda>x. x = c)"

definition ChrI :: "char \<Rightarrow> regex" where
  "ChrI c = Cls (\<lambda>x. toLowerByte x = toLowerByte c)"

definition Lit :: "string \<Rightarrow> regex" where
  "Lit s = reSeq (map Chr s)"

definition LitI :: "string \<Rightarrow> regex" where
  "LitI s = reSeq (map ChrI s)"

fun reAlts :: "regex list \<Rightarrow> regex" where
  "reAlts [] = Cls (\<lambda>x. False)"
| "reAlts [r] = r"
| "reAlts (r # rs) = Alt r (reAlts rs)"

definition isDigit :: "char \<Rightarrow> bool" where
  "isDigit c = (c \<in> set ''0123456789'')"

definition isWordChar :: "char \<Rightarrow> bool" where
  "isWordChar c =
     (c \<in> set ''0123456789ABCDEFGHIJKLMNOPQRSTUVWXYZabcdefghijklmnopqrstuvwxyz_'')"

definition isReSpace :: "char \<Rightarrow> bool" where
  "isReSpace c = (c = CHR 0x09 \<or> c = CHR 0x0A \<or> c = CHR 0x0C \<or> c = CHR 0x0D \<or> c = CHR '' '')"

definition isHex :: "char \<Rightarrow> bool" where
  "isHex c = (c \<in> set ''0123456789abcdefABCDEF'')"

definition reDigit :: regex where "reDigit = Cls isDigit"
definition reWord :: regex where "reWord = Cls isWordChar"
definition reSpace :: regex where "reSpace = Cls isReSpace"
definition reHex :: regex where "reHex = Cls isHex"
definition reAny :: regex where "reAny = Cls (\<lambda>c. c \<noteq> CHR 0x0A)"


section \<open>lexer.go: tables and patterns\<close>

text \<open>
  A Go \<^verbatim>\<open>map[string]bool\<close> whose values are all \<^verbatim>\<open>true\<close> is the list of its keys;
  the lookup \<^verbatim>\<open>m[k]\<close> is membership.
\<close>

definition commands :: "string list" where
  "commands =
     [''interface'', ''router'', ''ip'', ''ipv6'', ''show'', ''configure'', ''hostname'',
      ''username'', ''enable'', ''service'', ''line'', ''logging'', ''ntp'',
      ''snmp-server'', ''crypto'', ''aaa'', ''spanning-tree'', ''vlan'', ''banner'',
      ''shutdown'', ''write'', ''copy'', ''reload'', ''ping'', ''traceroute'', ''clock'',
      ''boot'', ''archive'', ''errdisable'', ''default-gateway'', ''do'', ''exit'',
      ''end'']"

definition sections :: "string list" where
  "sections =
     [''interface'', ''router'', ''line'', ''access-list'', ''route-map'', ''prefix-list'',
      ''class-map'', ''policy-map'', ''crypto'', ''vlan'', ''redundancy'', ''controller'',
      ''ip access-list'', ''key'', ''track'', ''monitor'', ''event'', ''applet'']"

definition protocols :: "string list" where
  "protocols =
     [''ospf'', ''bgp'', ''eigrp'', ''rip'', ''isis'', ''mpls'', ''hsrp'', ''vrrp'',
      ''stp'', ''rstp'', ''lacp'', ''dot1q'', ''ipsec'', ''gre'', ''tcp'', ''udp'',
      ''icmp'', ''ssh'', ''dhcp'', ''bfd'', ''cdp'', ''lldp'', ''evpn'', ''vxlan'',
      ''isakmp'', ''nhrp'', ''pim'', ''igmp'', ''msdp'', ''lisp'', ''omp'', ''snmp'',
      ''radius'', ''tacacs'', ''tacacs+'', ''telnet'', ''ftp'', ''tftp'', ''http'',
      ''https'', ''ntp'', ''dns'', ''syslog'', ''netflow'', ''sflow'', ''ipfix'']"

definition actions :: "string list" where
  "actions =
     [''permit'', ''deny'', ''log'', ''log-input'', ''established'', ''match'', ''set'',
      ''remark'', ''evaluate'', ''reflect'']"

definition operators :: "string list" where
  "operators =
     [''eq'', ''gt'', ''lt'', ''neq'', ''range'', ''ge'', ''le'', ''any'', ''host'']"

definition keywords' :: "string list" where
  "keywords' =
     [''description'', ''address'', ''switchport'', ''speed'', ''duplex'', ''mtu'',
      ''bandwidth'', ''encapsulation'', ''channel-group'', ''channel-protocol'',
      ''standby'', ''ip address'', ''no-autostate'', ''autostate'', ''network'',
      ''neighbor'', ''redistribute'', ''area'', ''remote-as'', ''update-source'',
      ''route-map'', ''access-group'', ''nat'', ''inside'', ''outside'', ''overload'',
      ''default-information'', ''originate'', ''summary-address'', ''passive-interface'',
      ''distance'', ''metric'', ''weight'', ''local-preference'', ''next-hop-self'',
      ''soft-reconfiguration'', ''inbound'', ''prefix-list'', ''distribute-list'',
      ''maximum-paths'', ''auto-summary'', ''synchronization'', ''log-neighbor-changes'',
      ''address-family'', ''unicast'', ''multicast'', ''vpnv4'', ''vpnv6'',
      ''access-class'', ''transport'', ''input'', ''output'', ''login'', ''password'',
      ''secret'', ''privilege'', ''authentication'', ''authorization'', ''accounting'',
      ''group'', ''method'', ''local'', ''version'', ''source'', ''trap'', ''community'',
      ''location'', ''contact'', ''default'', ''timeout'', ''exec-timeout'', ''mask'',
      ''wildcard'', ''inverse-mask'', ''mode'', ''priority'', ''vlan'', ''portfast'',
      ''bpduguard'', ''bpdufilter'', ''guard'', ''root'', ''name'', ''state'', ''active'',
      ''suspend'', ''class'', ''police'', ''shape'', ''queue'', ''dscp'', ''cos'',
      ''service-policy'', ''policy-map'', ''new-model'', ''server'', ''key'', ''trunk'',
      ''native'', ''allowed'', ''tagging'', ''nonegotiate'', ''negotiation'', ''auto'',
      ''half'', ''flow-control'', ''send'', ''both'', ''storm-control'', ''level'']"

definition valueKeywords :: "string list" where
  "valueKeywords =
     [''description'', ''hostname'', ''banner'', ''remark'']"

definition statesGood :: "string list" where
  "statesGood =
     [''up'', ''connected'', ''established'', ''full'', ''enabled'', ''active'',
      ''forwarding'', ''ok'', ''online'', ''running'', ''ready'', ''complete'']"

definition statesBad :: "string list" where
  "statesBad =
     [''down'', ''notconnect'', ''err-disabled'', ''disabled'', ''failed'', ''idle'',
      ''connect'', ''opensent'', ''openconfirm'', ''error'', ''offline'', ''unreachable'']"

definition statesWarning :: "string list" where
  "statesWarning =
     [''init'', ''2way'', ''exstart'', ''exchange'', ''loading'', ''attempt'',
      ''flapping'', ''pending'', ''waiting'', ''starting'', ''stopping'']"

definition statesNeutral :: "string list" where
  "statesNeutral =
     [''inactive'', ''standby'', ''backup'', ''suspended'', ''n/a'', ''none'']"

definition columnHeaders :: "string list" where
  "columnHeaders =
     [''interface'', ''status'', ''protocol'', ''address'', ''admin'', ''link'', ''speed'',
      ''type'', ''duplex'', ''neighbor'', ''peer'', ''state'', ''as'', ''inpkt'',
      ''outpkt'', ''uptime'', ''dead'', ''pri'', ''mtu'', ''metric'', ''local'',
      ''remote'', ''outq'', ''up/dn'', ''flaps'', ''prefixes'', ''paths'', ''vlan'',
      ''description'']"

definition statusSymbols :: "string list" where
  "statusSymbols =
     [''*'', ''+'', ''-'', ''>'', ''B'', ''O'', ''I'', ''S'', ''L'', ''D'', ''C'', ''R'']"

definition statesGoodCompound :: "string list" where
  "statesGoodCompound =
     [''up/up'']"

definition statesBadCompound :: "string list" where
  "statesBadCompound =
     [''down/down'', ''administratively'']"

definition ConfigIndicators :: "string list" where
  "ConfigIndicators =
     [''hostname '', ''interface '', ''router '', ''ip address '', ''switchport '',
      ''access-list '', ''no '', ''line vty'', ''line con'', ''service '', ''enable '',
      ''username '', ''ip route '', ''snmp-server '', ''logging '', ''ntp '', ''crypto '',
      ''aaa '', ''spanning-tree '', ''vlan '', ''banner '', ''ip access-list '']"

definition ShowIndicators :: "string list" where
  "ShowIndicators =
     [''line protocol'', ''up/up'', ''down/down'', ''notconnect'', ''err-disabled'',
      ''connected'', ''bgp summary'', ''ospf neighbor'', ''show '', ''last input'',
      ''last output'', ''5 minute'', ''input rate'', ''output rate'', ''show version'',
      ''cisco ios'']"

definition interfaceNames :: "string list" where
  "interfaceNames =
     [''GigabitEthernet'', ''Gi'', ''FastEthernet'', ''Fa'', ''TenGigabitEthernet'',
      ''TenGigE'', ''Te'', ''TwentyFiveGigE'', ''TwentyFiveGigabitEthernet'',
      ''FortyGigabitEthernet'', ''Fo'', ''HundredGigE'', ''Hu'', ''Ethernet'', ''Eth'',
      ''Loopback'', ''Lo'', ''Vlan'', ''Vl'', ''Port-channel'', ''Po'', ''Tunnel'', ''Tu'',
      ''Serial'', ''Se'', ''Null'', ''BDI'', ''mgmt'', ''nve'', ''NVE'', ''Dialer'',
      ''Di'', ''Virtual-Template'', ''Vt'', ''Virtual-Access'', ''Va'', ''Multilink'',
      ''Mu'', ''ATM'', ''Cellular'', ''Async'']"

text \<open>
  \<^verbatim>\<open>^(?i)(GigabitEthernet|Gi|...|Async)\d+(/\d+)*(\.\d+)?$\<close>
\<close>

definition interfacePattern :: regex where
  "interfacePattern =
     reSeq [reAlts (map LitI interfaceNames), rePlus reDigit,
            Star (Cat (Chr CHR ''/'') (rePlus reDigit)),
            Opt (Cat (Chr CHR ''.'') (rePlus reDigit)), Eot]"

text \<open>\<^verbatim>\<open>^(\d{1,3}\.){3}\d{1,3}$\<close> and \<^verbatim>\<open>^(\d{1,3}\.){3}\d{1,3}/\d{1,2}$\<close>\<close>

definition ipv4Pattern :: regex where
  "ipv4Pattern =
     reSeq [reRep 3 3 (Cat (reRep 1 3 reDigit) (Chr CHR ''.'')), reRep 1 3 reDigit, Eot]"

definition ipv4PrefixPattern :: regex where
  "ipv4PrefixPattern =
     reSeq [reRep 3 3 (Cat (reRep 1 3 reDigit) (Chr CHR ''.'')), reRep 1 3 reDigit,
            Chr CHR ''/'', reRep 1 2 reDigit, Eot]"

text \<open>
  The three alternatives of the IPv6 patterns:
  \<^verbatim>\<open>([0-9a-fA-F]{0,4}:){2,7}[0-9a-fA-F]{0,4}\<close>,
  \<^verbatim>\<open>::([0-9a-fA-F]{1,4}:)*[0-9a-fA-F]{0,4}\<close> and
  \<^verbatim>\<open>[0-9a-fA-F]{1,4}::([0-9a-fA-F]{1,4}:)*[0-9a-fA-F]{0,4}\<close>.
\<close>

definition ipv6Groups :: regex where
  "ipv6Groups =
     Cat (reRep 2 7 (Cat (reRep 0 4 reHex) (Chr CHR '':''))) (reRep 0 4 reHex)"

definition ipv6Leading :: regex where
  "ipv6Leading =
     reSeq [Chr CHR '':'', Chr CHR '':'', Star (Cat (reRep 1 4 reHex) (Chr CHR '':'')),
            reRep 0 4 reHex]"

definition ipv6Compressed :: regex where
  "ipv6Compressed =
     reSeq [reRep 1 4 reHex, Chr CHR '':'', Chr CHR '':'',
            Star (Cat (reRep 1 4 reHex) (Chr CHR '':'')), reRep 0 4 reHex]"

definition ipv6Pattern :: regex where
  "ipv6Pattern =
     reAlts [Cat ipv6Groups Eot, Cat ipv6Leading Eot, Cat ipv6Compressed Eot]"

definition ipv6PrefixPattern :: regex where
  "ipv6PrefixPattern =
     reSeq [reAlts [ipv6Groups, ipv6Leading, ipv6Compressed], Chr CHR ''/'',
            reRep 1 3 reDigit, Eot]"

text \<open>
  \<^verbatim>\<open>^[0-9a-fA-F]{4}\.[0-9a-fA-F]{4}\.[0-9a-fA-F]{4}$\<close>,
  \<^verbatim>\<open>^([0-9a-fA-F]{2}:){5}[0-9a-fA-F]{2}$\<close>, \<^verbatim>\<open>^\d+:\d+$\<close> and \<^verbatim>\<open>^[Aa][Ss]\d+$\<close>
\<close>

definition macPatternCisco :: regex where
  "macPatternCisco =
     reSeq [reRep 4 4 reHex, Chr CHR ''.'', reRep 4 4 reHex, Chr CHR ''.'', reRep 4 4 reHex, Eot]"

definition macPatternColon :: regex where
  "macPatternColon =
     reSeq [reRep 5 5 (Cat (reRep 2 2 reHex) (Chr CHR '':'')), reRep 2 2 reHex, Eot]"

definition communityPattern :: regex where
  "communityPattern = reSeq [rePlus reDigit, Chr CHR '':'', rePlus reDigit, Eot]"

definition asnPattern :: regex where
  "asnPattern =
     reSeq [Cls (\<lambda>c. c = CHR ''A'' \<or> c = CHR ''a''), Cls (\<lambda>c. c = CHR ''S'' \<or> c = CHR ''s''),
            rePlus reDigit, Eot]"

text \<open>
  \<^verbatim>\<open>^(\d+[wdhms])+$|^\d+:\d{2}(:\d{2})?$\<close>, \<^verbatim>\<open>^\d+(\.\d+)?%$\<close>,
  \<^verbatim>\<open>^\d+(\.\d+)?[KMGTP][Bb]?$\<close>,
  \<^verbatim>\<open>^\[(BGP|OSPF|EIGRP|RIP|ISIS|Static|Direct|Local|Connected|Aggregate)/\d+\]$\<close> and
  the pattern with no anchor \<^verbatim>\<open>\w+\s{2,}\w+\s{2,}\w+\<close>.
\<close>

definition timeDurationPattern :: regex where
  "timeDurationPattern =
     Alt (Cat (rePlus (Cat (rePlus reDigit) (Cls (\<lambda>c. c \<in> set ''wdhms'')))) Eot)
         (reSeq [rePlus reDigit, Chr CHR '':'', reRep 2 2 reDigit,
                 Opt (Cat (Chr CHR '':'') (reRep 2 2 reDigit)), Eot])"

definition percentagePattern :: regex where
  "percentagePattern =
     reSeq [rePlus reDigit, Opt (Cat (Chr CHR ''.'') (rePlus reDigit)), Chr CHR ''%'', Eot]"

definition byteSizePattern :: regex where
  "byteSizePattern =
     reSeq [rePlus reDigit, Opt (Cat (Chr CHR ''.'') (rePlus reDigit)),
            Cls (\<lambda>c. c \<in> set ''KMGTP''), Opt (Cls (\<lambda>c. c \<in> set ''Bb'')), Eot]"

definition routeProtocolPattern :: regex where
  "routeProtocolPattern =
     reSeq [Chr CHR ''['',
            reAlts (map Lit [''BGP'', ''OSPF'', ''EIGRP'', ''RIP'', ''ISIS'', ''Static'', ''Direct'',
                             ''Local'', ''Connected'', ''Aggregate'']),
            Chr CHR ''/'', rePlus reDigit, Chr CHR '']'', Eot]"

definition tabularPattern :: regex where
  "tabularPattern =
     reSeq [rePlus reWord, reSpace, reSpace, Star reSpace, rePlus reWord,
            reSpace, reSpace, Star reSpace, rePlus reWord]"

text \<open>
  \<^verbatim>\<open>^([\s\x00-\x1f]*)([\w.-]+)(\([\w-]+\))?([>#])\s*(.*?)\n?$\<close>: the part up to the prompt
  character (groups 1 to 4) and the part after it (group 5).
\<close>

definition promptHead :: regex where
  "promptHead =
     reSeq [Grp 1 (Star (Cls (\<lambda>c. isReSpace c \<or> byte c \<le> 0x1f))),
            Grp 2 (rePlus (Cls (\<lambda>c. isWordChar c \<or> c = CHR ''.'' \<or> c = CHR ''-''))),
            Opt (Grp 3 (reSeq [Chr CHR ''('', rePlus (Cls (\<lambda>c. isWordChar c \<or> c = CHR ''-'')),
                               Chr CHR '')''])),
            Grp 4 (Cls (\<lambda>c. c = CHR ''>'' \<or> c = CHR ''#''))]"

definition promptTail :: regex where
  "promptTail = reSeq [Star reSpace, Grp 5 (Lazy reAny), Opt (Chr CHR 0x0A), Eot]"

definition promptPattern :: regex where
  "promptPattern = Cat promptHead promptTail"

section \<open>token.go and lexer.go: tokens and the lexer state\<close>

datatype TokenType =
    TokenText | TokenCommand | TokenSection | TokenProtocol | TokenAction | TokenInterface
  | TokenIPv4 | TokenIPv4Prefix | TokenIPv6 | TokenIPv6Prefix | TokenMAC | TokenNumber
  | TokenString | TokenComment | TokenIdentifier | TokenKeyword | TokenOperator | TokenASN
  | TokenCommunity | TokenValue | TokenNegation
  | TokenStateGood | TokenStateBad | TokenStateWarning | TokenStateNeutral
  | TokenColumnHeader | TokenStatusSymbol | TokenTimeDuration | TokenPercentage
  | TokenByteSize | TokenRouteProtocol
  | TokenPromptHost | TokenPromptMode | TokenPromptOper | TokenPromptConf

record Token =
  Type :: TokenType
  Value :: string
  Line :: int
  Column :: int

datatype ParseMode = ParseModeAuto | ParseModeConfig | ParseModeShow

record Lexer =
  input :: string
  pos :: nat
  line :: int
  col :: int
  parseMode :: ParseMode
  detectedMode :: bool
  expectingValue :: bool
  lastToken :: string

definition parseModeDetectionSampleSize :: nat where
  "parseModeDetectionSampleSize = 500"

text \<open>\<^verbatim>\<open>New\<close>: the fields Go leaves out have their zero values.\<close>

definition New :: "string \<Rightarrow> Lexer" where
  "New inp = \<lparr>input = inp, pos = 0, line = 1, col = 1, parseMode = ParseModeAuto,
               detectedMode = False, expectingValue = False, lastToken = []\<rparr>"

definition SetParseMode :: "ParseMode \<Rightarrow> Lexer \<Rightarrow> Lexer" where
  "SetParseMode mode l = l\<lparr>parseMode := mode, detectedMode := True\<rparr>"

definition GetParseMode :: "Lexer \<Rightarrow> ParseMode" where
  "GetParseMode l = parseMode l"

definition advance :: "Lexer \<Rightarrow> Lexer" where
  "advance l =
     (if pos l < length (input l) then
        (if input l ! pos l = CHR 0x0A
         then l\<lparr>line := line l + 1, col := 1, pos := pos l + 1\<rparr>
         else l\<lparr>col := col l + 1, pos := pos l + 1\<rparr>)
      else l)"

definition isWhitespace :: "char \<Rightarrow> bool" where
  "isWhitespace ch = (ch = CHR '' '' \<or> ch = CHR 0x09 \<or> ch = CHR 0x0A \<or> ch = CHR 0x0D)"

definition isAllDigits :: "string \<Rightarrow> bool" where
  "isAllDigits s =
     (if length s = 0 then False else list_all (\<lambda>c. \<not> (byte c < 48 \<or> byte c > 57)) s)"

subsection \<open>The mode detector\<close>

text \<open>
  \<open>countIndicators\<close> is the loop \<^verbatim>\<open>for _, ind := range ... { if strings.Contains(lower, ind)
  { score++ } }\<close>; \<open>configScore\<close> and \<open>showScore\<close> compute the two local variables of
  these names of \<^verbatim>\<open>detectParseMode\<close> as they are when it reaches its last \<^verbatim>\<open>if\<close>.
\<close>

definition sampleOf :: "string \<Rightarrow> string" where
  "sampleOf inp =
     (if length inp > parseModeDetectionSampleSize then slice inp 0 parseModeDetectionSampleSize
      else inp)"

fun countIndicators :: "string \<Rightarrow> string list \<Rightarrow> int" where
  "countIndicators lower [] = 0"
| "countIndicators lower (ind # inds) =
     (if Contains lower ind then 1 else 0) + countIndicators lower inds"

definition configScore :: "string \<Rightarrow> int" where
  "configScore sample =
     countIndicators (ToLower sample) ConfigIndicators +
     (if Contains sample [CHR 0x0A, CHR ''!'', CHR 0x0A] \<or> HasPrefix sample [CHR ''!'', CHR 0x0A]
      then 2 else 0)"

definition showScore :: "string \<Rightarrow> int" where
  "showScore sample =
     countIndicators (ToLower sample) ShowIndicators +
     (if MatchAnywhere tabularPattern sample then 2 else 0)"

definition detectParseMode :: "Lexer \<Rightarrow> ParseMode" where
  "detectParseMode l =
     (let sample = sampleOf (input l);
          cScore = configScore sample;
          sScore = showScore sample
      in if sScore \<ge> 2 \<and> sScore > cScore then ParseModeShow else ParseModeConfig)"

subsection \<open>Word classification\<close>

definition classifySharedPatterns :: "Lexer \<Rightarrow> string \<Rightarrow> TokenType" where
  "classifySharedPatterns l w =
     (if MatchString interfacePattern w then TokenInterface
      else if MatchString ipv4PrefixPattern w then TokenIPv4Prefix
      else if MatchString ipv4Pattern w then TokenIPv4
      else if MatchString macPatternCisco w then TokenMAC
      else if MatchString macPatternColon w then TokenMAC
      else if lastToken l = ''community'' \<and> MatchString communityPattern w then TokenCommunity
      else if MatchString ipv6PrefixPattern w then TokenIPv6Prefix
      else if MatchString ipv6Pattern w then TokenIPv6
      else if isAllDigits w then TokenNumber
      else TokenIdentifier)"

text \<open>
  The classifiers return the token type and the lexer, whose fields \<open>lastToken\<close> and
  \<open>expectingValue\<close> they may have set.
\<close>

definition classifyConfigWord :: "Lexer \<Rightarrow> string \<Rightarrow> string \<Rightarrow> TokenType \<times> Lexer" where
  "classifyConfigWord l w lower =
     (if lower = ''no'' then (TokenNegation, l\<lparr>lastToken := lower\<rparr>)
      else if MatchString asnPattern w then (TokenASN, l)
      else if lower \<in> set commands then (TokenCommand, l\<lparr>lastToken := lower\<rparr>)
      else if lower \<in> set sections then (TokenSection, l\<lparr>lastToken := lower\<rparr>)
      else if lower \<in> set protocols then (TokenProtocol, l\<lparr>lastToken := lower\<rparr>)
      else if lower \<in> set actions then
        (TokenAction,
         (if lower \<in> set valueKeywords then l\<lparr>expectingValue := True\<rparr> else l)
           \<lparr>lastToken := lower\<rparr>)
      else if lower \<in> set operators then (TokenOperator, l\<lparr>lastToken := lower\<rparr>)
      else if lower \<in> set keywords' then
        (TokenKeyword,
         (if lower \<in> set valueKeywords then l\<lparr>expectingValue := True\<rparr> else l)
           \<lparr>lastToken := lower\<rparr>)
      else (classifySharedPatterns l w, l))"

definition classifyShowWord :: "Lexer \<Rightarrow> string \<Rightarrow> string \<Rightarrow> TokenType \<times> Lexer" where
  "classifyShowWord l w lower =
     (if lower \<in> set statesGoodCompound then (TokenStateGood, l)
      else if lower \<in> set statesBadCompound then (TokenStateBad, l)
      else if lower \<in> set statesGood then (TokenStateGood, l)
      else if lower \<in> set statesBad then (TokenStateBad, l)
      else if lower \<in> set statesWarning then (TokenStateWarning, l)
      else if lower \<in> set statesNeutral then (TokenStateNeutral, l)
      else if length w \<le> 2 \<and> w \<in> set statusSymbols then (TokenStatusSymbol, l)
      else if MatchString timeDurationPattern w then (TokenTimeDuration, l)
      else if MatchString percentagePattern w then (TokenPercentage, l)
      else if MatchString byteSizePattern w then (TokenByteSize, l)
      else if MatchString routeProtocolPattern w then (TokenRouteProtocol, l)
      else if lower \<in> set columnHeaders then (TokenColumnHeader, l)
      else (classifySharedPatterns l w, l))"

definition resolveMode :: "Lexer \<Rightarrow> Lexer" where
  "resolveMode l =
     (if parseMode l = ParseModeAuto \<and> \<not> detectedMode l
      then l\<lparr>parseMode := detectParseMode l, detectedMode := True\<rparr> else l)"

definition classifyWord :: "Lexer \<Rightarrow> string \<Rightarrow> TokenType \<times> Lexer" where
  "classifyWord l0 w =
     (let l = resolveMode l0; lower = ToLower w
      in if parseMode l = ParseModeShow then classifyShowWord l w lower
         else classifyConfigWord l w lower)"

subsection \<open>The scanners\<close>

text \<open>
  Each scanner is its \<^verbatim>\<open>for\<close> loop, a function of the lexer that returns the lexer
  it leaves, and the token \<^verbatim>\<open>input[start:pos]\<close> built after the loop.
\<close>

definition mkToken :: "TokenType \<Rightarrow> Lexer \<Rightarrow> Lexer \<Rightarrow> Token" where
  "mkToken ty l0 l =
     \<lparr>Type = ty, Value = slice (input l) (pos l0) (pos l), Line = line l0, Column = col l0\<rparr>"

lemma advance_input [simp]: "input (advance l) = input l"
  by (simp add: advance_def)

lemma advance_pos:
  "pos (advance l) = (if pos l < length (input l) then pos l + 1 else pos l)"
  by (simp add: advance_def)

function scanComment_loop :: "Lexer \<Rightarrow> Lexer" where
  "scanComment_loop l =
     (if pos l < length (input l) \<and> input l ! pos l \<noteq> CHR 0x0A
      then scanComment_loop (advance l) else l)"
  by pat_completeness auto
termination
  by (relation "measure (\<lambda>l. length (input l) - pos l)") (auto simp: advance_pos)

declare scanComment_loop.simps [simp del]

definition scanComment :: "Lexer \<Rightarrow> Token \<times> Lexer" where
  "scanComment l = (let l1 = scanComment_loop l in (mkToken TokenComment l l1, l1))"

text \<open>
  \<^verbatim>\<open>scanString\<close>: the closing quote ends the loop after it is read; a backslash that
  is not the last byte takes the byte after it along.
\<close>

function scanString_loop :: "char \<Rightarrow> Lexer \<Rightarrow> Lexer" where
  "scanString_loop quote l =
     (if pos l < length (input l) then
        (if input l ! pos l = quote then advance l
         else scanString_loop quote
                (advance (if input l ! pos l = CHR 0x5C \<and> pos l + 1 < length (input l)
                          then advance l else l)))
      else l)"
  by pat_completeness auto
termination
  by (relation "measure (\<lambda>(quote, l). length (input l) - pos l)") (auto simp: advance_pos)

declare scanString_loop.simps [simp del]

definition scanString :: "char \<Rightarrow> Lexer \<Rightarrow> Token \<times> Lexer" where
  "scanString quote l =
     (let l1 = scanString_loop quote (advance l) in (mkToken TokenString l l1, l1))"

function scanValue_loop :: "Lexer \<Rightarrow> Lexer" where
  "scanValue_loop l =
     (if pos l < length (input l) then
        (if input l ! pos l = CHR 0x0A then l else scanValue_loop (advance l))
      else l)"
  by pat_completeness auto
termination
  by (relation "measure (\<lambda>l. length (input l) - pos l)") (auto simp: advance_pos)

declare scanValue_loop.simps [simp del]

definition scanValueToEndOfLine :: "Lexer \<Rightarrow> Token \<times> Lexer" where
  "scanValueToEndOfLine l = (let l1 = scanValue_loop l in (mkToken TokenValue l l1, l1))"

function scanWhitespace_loop :: "Lexer \<Rightarrow> Lexer" where
  "scanWhitespace_loop l =
     (if pos l < length (input l) \<and> isWhitespace (input l ! pos l)
      then scanWhitespace_loop (advance l) else l)"
  by pat_completeness auto
termination
  by (relation "measure (\<lambda>l. length (input l) - pos l)") (auto simp: advance_pos)

declare scanWhitespace_loop.simps [simp del]

definition scanWhitespace :: "Lexer \<Rightarrow> Token \<times> Lexer" where
  "scanWhitespace l = (let l1 = scanWhitespace_loop l in (mkToken TokenText l l1, l1))"

function scanWord_loop :: "Lexer \<Rightarrow> Lexer" where
  "scanWord_loop l =
     (if pos l < length (input l) then
        (if isWhitespace (input l ! pos l) \<or> input l ! pos l = CHR 0x22
            \<or> input l ! pos l = CHR 0x27
         then l else scanWord_loop (advance l))
      else l)"
  by pat_completeness auto
termination
  by (relation "measure (\<lambda>l. length (input l) - pos l)") (auto simp: advance_pos)

declare scanWord_loop.simps [simp del]

definition scanWord :: "Lexer \<Rightarrow> Token \<times> Lexer" where
  "scanWord l =
     (let l1 = scanWord_loop l;
          w = slice (input l1) (pos l) (pos l1);
          (tokenType, l2) = classifyWord l1 w
      in (\<lparr>Type = tokenType, Value = w, Line = line l, Column = col l\<rparr>, l2))"

text \<open>\<^verbatim>\<open>nextToken\<close>: the cases of its \<^verbatim>\<open>switch\<close>, in order.\<close>

definition nextToken :: "Lexer \<Rightarrow> Token \<times> Lexer" where
  "nextToken l =
     (if pos l \<ge> length (input l)
      then (\<lparr>Type = TokenText, Value = [], Line = line l, Column = col l\<rparr>, l)
      else if input l ! pos l = CHR ''!'' \<and> col l = 1 then scanComment l
      else if input l ! pos l = CHR 0x22 then
        (let (token, l1) = scanString (CHR 0x22) (l\<lparr>expectingValue := False\<rparr>)
         in (if expectingValue l then token\<lparr>Type := TokenValue\<rparr> else token, l1))
      else if input l ! pos l = CHR 0x27 then
        (let (token, l1) = scanString (CHR 0x27) (l\<lparr>expectingValue := False\<rparr>)
         in (if expectingValue l then token\<lparr>Type := TokenValue\<rparr> else token, l1))
      else if isWhitespace (input l ! pos l) then scanWhitespace l
      else if expectingValue l then scanValueToEndOfLine (l\<lparr>expectingValue := False\<rparr>)
      else scanWord l)"


subsection \<open>What a match reads and captures\<close>

text \<open>
  Facts about the matcher that the termination of \<^verbatim>\<open>Tokenize\<close> rests on: a match never
  gives text back, a group outside an expression keeps its capture, and the length of a
  capture plus the length of the text left never grows (\<open>weight\<close>). So the command
  captured after a prompt is shorter than the whole line.
\<close>

fun groups :: "regex \<Rightarrow> nat set" where
  "groups (Cls P) = {}"
| "groups (Cat a b) = groups a \<union> groups b"
| "groups (Alt a b) = groups a \<union> groups b"
| "groups (Opt a) = groups a"
| "groups (Star a) = groups a"
| "groups (Lazy a) = groups a"
| "groups (Grp i a) = insert i (groups a)"
| "groups Eps = {}"
| "groups Eot = {}"

lemma runStar_keeps:
  assumes "\<And>st st'. st' \<in> set (f st) \<Longrightarrow> snd st' ! j = snd st ! j"
  shows "st' \<in> set (runStar f n st) \<Longrightarrow> snd st' ! j = snd st ! j"
proof (induction n arbitrary: st)
  case 0
  then show ?case by simp
next
  case (Suc n)
  from Suc.prems consider "st' = st"
    | mid where "mid \<in> set (f st)" "st' \<in> set (runStar f n mid)"
    by auto
  then show ?case
  proof cases
    case 1
    then show ?thesis by simp
  next
    case 2
    with Suc.IH [of mid] assms [of mid st] show ?thesis by simp
  qed
qed

lemma runLazy_keeps:
  assumes "\<And>st st'. st' \<in> set (f st) \<Longrightarrow> snd st' ! j = snd st ! j"
  shows "st' \<in> set (runLazy f n st) \<Longrightarrow> snd st' ! j = snd st ! j"
proof (induction n arbitrary: st)
  case 0
  then show ?case by simp
next
  case (Suc n)
  from Suc.prems consider "st' = st"
    | mid where "mid \<in> set (f st)" "st' \<in> set (runLazy f n mid)"
    by auto
  then show ?case
  proof cases
    case 1
    then show ?thesis by simp
  next
    case 2
    with Suc.IH [of mid] assms [of mid st] show ?thesis by simp
  qed
qed

lemma run_keeps:
  "st' \<in> set (run r st) \<Longrightarrow> j \<notin> groups r \<Longrightarrow> snd st' ! j = snd st ! j"
proof (induction r arbitrary: st st')
  case (Cls P)
  then show ?case by (auto split: list.splits if_splits)
next
  case (Cat a b)
  from Cat.prems obtain mid where "mid \<in> set (run a st)" "st' \<in> set (run b mid)" by auto
  with Cat.IH(1) [of mid st] Cat.IH(2) [of st' mid] Cat.prems(2) show ?case by simp
next
  case (Alt a b)
  from Alt.prems(1) have "st' \<in> set (run a st) \<or> st' \<in> set (run b st)" by simp
  with Alt.IH(1) [of st' st] Alt.IH(2) [of st' st] Alt.prems(2) show ?case by auto
next
  case (Opt a)
  from Opt.prems(1) have "st' \<in> set (run a st) \<or> st' = st" by auto
  with Opt.IH [of st' st] Opt.prems(2) show ?case by auto
next
  case (Star a)
  from Star.prems(2) have "\<And>x y. y \<in> set (run a x) \<Longrightarrow> snd y ! j = snd x ! j"
    using Star.IH by simp
  from runStar_keeps [of "run a" j, OF this] Star.prems(1) show ?case by simp
next
  case (Lazy a)
  from Lazy.prems(2) have "\<And>x y. y \<in> set (run a x) \<Longrightarrow> snd y ! j = snd x ! j"
    using Lazy.IH by simp
  from runLazy_keeps [of "run a" j, OF this] Lazy.prems(1) show ?case by simp
next
  case (Grp i a)
  from Grp.prems obtain mid where mid: "mid \<in> set (run a st)"
    and st': "snd st' = (snd mid)[i := take (length (fst st) - length (fst mid)) (fst st)]"
    by auto
  from Grp.prems(2) have "i \<noteq> j" "j \<notin> groups a" by auto
  with Grp.IH [OF mid] st' show ?case by simp
next
  case Eps
  then show ?case by simp
next
  case Eot
  then show ?case by (auto split: if_splits)
qed

definition weight :: "nat \<Rightarrow> mstate \<Rightarrow> nat" where
  "weight j st = length (snd st ! j) + length (fst st)"

definition shrinks :: "nat \<Rightarrow> mstate \<Rightarrow> mstate \<Rightarrow> bool" where
  "shrinks j st st' \<longleftrightarrow> length (fst st') \<le> length (fst st) \<and> weight j st' \<le> weight j st"

lemma shrinks_refl: "shrinks j st st"
  by (simp add: shrinks_def)

lemma shrinks_trans: "shrinks j a b \<Longrightarrow> shrinks j b c \<Longrightarrow> shrinks j a c"
  by (auto simp: shrinks_def)

lemma runStar_shrinks:
  assumes "\<And>st st'. st' \<in> set (f st) \<Longrightarrow> shrinks j st st'"
  shows "st' \<in> set (runStar f n st) \<Longrightarrow> shrinks j st st'"
proof (induction n arbitrary: st)
  case 0
  then show ?case by (simp add: shrinks_refl)
next
  case (Suc n)
  from Suc.prems consider "st' = st"
    | mid where "mid \<in> set (f st)" "st' \<in> set (runStar f n mid)"
    by auto
  then show ?case
  proof cases
    case 1
    then show ?thesis by (simp add: shrinks_refl)
  next
    case 2
    with Suc.IH [of mid] assms [of mid st] show ?thesis by (blast intro: shrinks_trans)
  qed
qed

lemma runLazy_shrinks:
  assumes "\<And>st st'. st' \<in> set (f st) \<Longrightarrow> shrinks j st st'"
  shows "st' \<in> set (runLazy f n st) \<Longrightarrow> shrinks j st st'"
proof (induction n arbitrary: st)
  case 0
  then show ?case by (simp add: shrinks_refl)
next
  case (Suc n)
  from Suc.prems consider "st' = st"
    | mid where "mid \<in> set (f st)" "st' \<in> set (runLazy f n mid)"
    by auto
  then show ?case
  proof cases
    case 1
    then show ?thesis by (simp add: shrinks_refl)
  next
    case 2
    with Suc.IH [of mid] assms [of mid st] show ?thesis by (blast intro: shrinks_trans)
  qed
qed

lemma run_shrinks: "st' \<in> set (run r st) \<Longrightarrow> shrinks j st st'"
proof (induction r arbitrary: st st')
  case (Cls P)
  then show ?case
    by (cases "fst st") (auto simp: shrinks_def weight_def split: if_splits)
next
  case (Cat a b)
  from Cat.prems obtain mid where "mid \<in> set (run a st)" "st' \<in> set (run b mid)" by auto
  with Cat.IH(1) [of mid st] Cat.IH(2) [of st' mid] show ?case by (blast intro: shrinks_trans)
next
  case (Alt a b)
  from Alt.prems have "st' \<in> set (run a st) \<or> st' \<in> set (run b st)" by simp
  with Alt.IH(1) [of st' st] Alt.IH(2) [of st' st] show ?case by auto
next
  case (Opt a)
  from Opt.prems have "st' \<in> set (run a st) \<or> st' = st" by auto
  with Opt.IH [of st' st] show ?case by (auto simp: shrinks_refl)
next
  case (Star a)
  from runStar_shrinks [of "run a" j, OF Star.IH] Star.prems show ?case by simp
next
  case (Lazy a)
  from runLazy_shrinks [of "run a" j, OF Lazy.IH] Lazy.prems show ?case by simp
next
  case (Grp i a)
  from Grp.prems obtain mid where mid: "mid \<in> set (run a st)"
    and f: "fst st' = fst mid"
    and s: "snd st' = (snd mid)[i := take (length (fst st) - length (fst mid)) (fst st)]"
    by auto
  from Grp.IH [OF mid] have sh: "shrinks j st mid" .
  show ?case
  proof (cases "i = j \<and> i < length (snd mid)")
    case True
    with s have "length (snd st' ! j) = length (fst st) - length (fst mid)" by simp
    with sh f show ?thesis by (simp add: shrinks_def weight_def)
  next
    case False
    have "snd st' ! j = snd mid ! j"
    proof (cases "i = j")
      case True
      with False have "length (snd mid) \<le> i" by simp
      then have "(snd mid)[i := take (length (fst st) - length (fst mid)) (fst st)] = snd mid"
        by (rule list_update_beyond)
      with s show ?thesis by simp
    next
      case False
      with s show ?thesis by simp
    qed
    with sh f show ?thesis by (simp add: shrinks_def weight_def)
  qed
next
  case Eps
  then show ?case by (simp add: shrinks_refl)
next
  case Eot
  then show ?case by (auto simp: shrinks_refl split: if_splits)
qed

lemma run_Cat_iff:
  "st' \<in> set (run (Cat a b) st) \<longleftrightarrow> (\<exists>mid\<in>set (run a st). st' \<in> set (run b mid))"
  by auto

lemma run_Cls_strict: "st' \<in> set (run (Grp i (Cls P)) st) \<Longrightarrow> length (fst st') < length (fst st)"
  by (cases "fst st") (auto split: if_splits)

lemma run_promptHead_strict:
  assumes "st' \<in> set (run promptHead st)"
  shows "length (fst st') < length (fst st) \<and> snd st' ! 5 = snd st ! 5"
proof -
  have keep: "snd st' ! 5 = snd st ! 5"
    by (rule run_keeps [OF assms])
       (simp add: promptHead_def rePlus_def Chr_def)
  from assms obtain a b c g1 g2 g3 P where "a \<in> set (run g1 st)"
    and "b \<in> set (run g2 a)" and "c \<in> set (run g3 b)"
    and last: "st' \<in> set (run (Grp 4 (Cls P)) c)"
    unfolding promptHead_def reSeq.simps run_Cat_iff by blast
  then have "shrinks 5 st a" "shrinks 5 a b" "shrinks 5 b c" by (blast intro: run_shrinks)+
  then have "length (fst c) \<le> length (fst st)" by (auto simp: shrinks_def)
  moreover from last have "length (fst st') < length (fst c)" by (rule run_Cls_strict)
  ultimately show ?thesis using keep by simp
qed

lemma prompt_command_shorter:
  assumes "FindStringSubmatch promptPattern 5 inp = Some matches"
  shows "length (matches ! 5) < length inp"
proof -
  from assms obtain st where st: "st \<in> set (run promptPattern (inp, replicate 6 []))"
    and m: "matches = (snd st)[0 := take (length inp - length (fst st)) inp]"
    by (auto simp: FindStringSubmatch_def split: list.splits)
  from st obtain mid where mid: "mid \<in> set (run promptHead (inp, replicate 6 []))"
    and tl: "st \<in> set (run promptTail mid)"
    by (auto simp: promptPattern_def)
  from run_promptHead_strict [OF mid]
  have h: "length (fst mid) < length inp" "snd mid ! 5 = []" by simp_all
  from run_shrinks [OF tl, of 5] h(2) have "length (snd st ! 5) \<le> length (fst mid)"
    by (simp add: shrinks_def weight_def)
  with h(1) m show ?thesis by simp
qed

lemma length_TrimSpace: "length (TrimSpace s) \<le> length s"
proof -
  have "length (dropWhile isSpaceByte (rev (dropWhile isSpaceByte s))) \<le> length (rev (dropWhile isSpaceByte s))"
    by (rule length_dropWhile_le)
  also have "\<dots> \<le> length s" by (simp add: length_dropWhile_le)
  finally show ?thesis by (simp add: TrimSpace_def)
qed

subsection \<open>The scanners only move the cursor\<close>

definition advanced :: "Lexer \<Rightarrow> Lexer \<Rightarrow> bool" where
  "advanced l l' \<longleftrightarrow>
     input l' = input l \<and> pos l \<le> pos l' \<and> pos l' \<le> length (input l) \<and>
     parseMode l' = parseMode l \<and> detectedMode l' = detectedMode l \<and>
     expectingValue l' = expectingValue l \<and> lastToken l' = lastToken l"

lemma advanced_refl: "pos l \<le> length (input l) \<Longrightarrow> advanced l l"
  by (simp add: advanced_def)

lemma advanced_trans: "advanced a b \<Longrightarrow> advanced b c \<Longrightarrow> advanced a c"
  by (auto simp: advanced_def)

lemma advanced_advance: "pos l \<le> length (input l) \<Longrightarrow> advanced l (advance l)"
  by (auto simp: advanced_def advance_def)

lemma advanced_advance_strict:
  "pos l < length (input l) \<Longrightarrow> advanced l (advance l) \<and> pos (advance l) = pos l + 1"
  by (auto simp: advanced_def advance_def)

lemma advanced_scanComment_loop:
  "pos l \<le> length (input l) \<Longrightarrow> advanced l (scanComment_loop l)"
proof (induction l rule: scanComment_loop.induct)
  case (1 l)
  show ?case
  proof (cases "pos l < length (input l) \<and> input l ! pos l \<noteq> CHR 0x0A")
    case True
    then have a: "advanced l (advance l)" by (simp add: advanced_advance)
    then have "pos (advance l) \<le> length (input (advance l))" by (simp add: advanced_def)
    with 1(1) [OF True] have "advanced (advance l) (scanComment_loop (advance l))" .
    with a have "advanced l (scanComment_loop (advance l))" by (rule advanced_trans)
    with True show ?thesis by (subst scanComment_loop.simps) simp
  next
    case False
    with 1(2) show ?thesis by (subst scanComment_loop.simps) (auto simp: advanced_refl)
  qed
qed

lemma advanced_scanValue_loop:
  "pos l \<le> length (input l) \<Longrightarrow> advanced l (scanValue_loop l)"
proof (induction l rule: scanValue_loop.induct)
  case (1 l)
  show ?case
  proof (cases "pos l < length (input l) \<and> input l ! pos l \<noteq> CHR 0x0A")
    case True
    then have a: "advanced l (advance l)" by (simp add: advanced_advance)
    then have "pos (advance l) \<le> length (input (advance l))" by (simp add: advanced_def)
    with 1(1) True have "advanced (advance l) (scanValue_loop (advance l))" by simp
    with a have "advanced l (scanValue_loop (advance l))" by (rule advanced_trans)
    with True show ?thesis by (subst scanValue_loop.simps) simp
  next
    case False
    with 1(2) show ?thesis by (subst scanValue_loop.simps) (auto simp: advanced_refl)
  qed
qed

lemma advanced_scanWhitespace_loop:
  "pos l \<le> length (input l) \<Longrightarrow> advanced l (scanWhitespace_loop l)"
proof (induction l rule: scanWhitespace_loop.induct)
  case (1 l)
  show ?case
  proof (cases "pos l < length (input l) \<and> isWhitespace (input l ! pos l)")
    case True
    then have a: "advanced l (advance l)" by (simp add: advanced_advance)
    then have "pos (advance l) \<le> length (input (advance l))" by (simp add: advanced_def)
    with 1(1) [OF True] have "advanced (advance l) (scanWhitespace_loop (advance l))" .
    with a have "advanced l (scanWhitespace_loop (advance l))" by (rule advanced_trans)
    with True show ?thesis by (subst scanWhitespace_loop.simps) simp
  next
    case False
    with 1(2) show ?thesis by (subst scanWhitespace_loop.simps) (auto simp: advanced_refl)
  qed
qed

lemma advanced_scanWord_loop:
  "pos l \<le> length (input l) \<Longrightarrow> advanced l (scanWord_loop l)"
proof (induction l rule: scanWord_loop.induct)
  case (1 l)
  show ?case
  proof (cases "pos l < length (input l) \<and> \<not> (isWhitespace (input l ! pos l)
      \<or> input l ! pos l = CHR 0x22 \<or> input l ! pos l = CHR 0x27)")
    case True
    then have a: "advanced l (advance l)" by (simp add: advanced_advance)
    then have "pos (advance l) \<le> length (input (advance l))" by (simp add: advanced_def)
    with 1(1) True have "advanced (advance l) (scanWord_loop (advance l))" by simp
    with a have "advanced l (scanWord_loop (advance l))" by (rule advanced_trans)
    with True show ?thesis by (subst scanWord_loop.simps) simp
  next
    case False
    with 1(2) show ?thesis by (subst scanWord_loop.simps) (auto simp: advanced_refl)
  qed
qed

lemma advanced_scanString_loop:
  "pos l \<le> length (input l) \<Longrightarrow> advanced l (scanString_loop quote l)"
proof (induction quote l rule: scanString_loop.induct)
  case (1 quote l)
  show ?case
  proof (cases "pos l < length (input l)")
    case False
    with 1(2) show ?thesis by (subst scanString_loop.simps) (simp add: advanced_refl)
  next
    case True
    note lt = True
    show ?thesis
    proof (cases "input l ! pos l = quote")
      case True
      with lt show ?thesis by (subst scanString_loop.simps) (simp add: advanced_advance)
    next
      case False
      let ?l1 = "if input l ! pos l = CHR 0x5C \<and> pos l + 1 < length (input l)
                 then advance l else l"
      have a1: "advanced l ?l1" using lt by (simp add: advanced_advance advanced_refl)
      then have "pos ?l1 \<le> length (input ?l1)" unfolding advanced_def by metis
      then have a2: "advanced ?l1 (advance ?l1)" by (rule advanced_advance)
      with a1 have a: "advanced l (advance ?l1)" by (rule advanced_trans)
      then have "pos (advance ?l1) \<le> length (input (advance ?l1))"
        unfolding advanced_def by metis
      with 1(1) [OF lt False] have "advanced (advance ?l1) (scanString_loop quote (advance ?l1))" .
      with a have "advanced l (scanString_loop quote (advance ?l1))" by (rule advanced_trans)
      with lt False show ?thesis by (subst scanString_loop.simps) simp
    qed
  qed
qed

text \<open>Classifying a word changes neither the text nor the cursor.\<close>

lemma classifySharedPatterns_cases:
  "classifySharedPatterns l w \<in> {TokenInterface, TokenIPv4Prefix, TokenIPv4, TokenMAC,
     TokenCommunity, TokenIPv6Prefix, TokenIPv6, TokenNumber, TokenIdentifier}"
  by (simp add: classifySharedPatterns_def)

lemma classifyConfigWord_cursor:
  "input (snd (classifyConfigWord l w lower)) = input l \<and>
   pos (snd (classifyConfigWord l w lower)) = pos l \<and>
   parseMode (snd (classifyConfigWord l w lower)) = parseMode l \<and>
   detectedMode (snd (classifyConfigWord l w lower)) = detectedMode l"
  by (simp add: classifyConfigWord_def)

lemma classifyShowWord_cursor:
  "input (snd (classifyShowWord l w lower)) = input l \<and>
   pos (snd (classifyShowWord l w lower)) = pos l \<and>
   parseMode (snd (classifyShowWord l w lower)) = parseMode l \<and>
   detectedMode (snd (classifyShowWord l w lower)) = detectedMode l"
  by (simp add: classifyShowWord_def)

lemma resolveMode_cursor: "input (resolveMode l) = input l \<and> pos (resolveMode l) = pos l"
  by (simp add: resolveMode_def)

lemma classifyWord_cursor:
  "input (snd (classifyWord l w)) = input l \<and> pos (snd (classifyWord l w)) = pos l"
  using classifyConfigWord_cursor [of "resolveMode l" w "ToLower w"]
    classifyShowWord_cursor [of "resolveMode l" w "ToLower w"] resolveMode_cursor [of l]
  by (simp add: classifyWord_def Let_def)

subsection \<open>Every scan step reads at least one byte\<close>

definition scanned :: "Lexer \<Rightarrow> Token \<times> Lexer \<Rightarrow> bool" where
  "scanned l r \<longleftrightarrow>
     input (snd r) = input l \<and> pos l < pos (snd r) \<and> pos (snd r) \<le> length (input l) \<and>
     Value (fst r) = slice (input l) (pos l) (pos (snd r))"

lemma scanned_scanComment:
  assumes "pos l < length (input l)" "input l ! pos l \<noteq> CHR 0x0A"
  shows "scanned l (scanComment l)"
proof -
  from assms have "scanComment_loop l = scanComment_loop (advance l)"
    by (subst scanComment_loop.simps) simp
  moreover from assms(1) have a: "advanced l (advance l)" "pos (advance l) = pos l + 1"
    using advanced_advance_strict by blast+
  moreover from a have "advanced (advance l) (scanComment_loop (advance l))"
    by (intro advanced_scanComment_loop) (simp add: advanced_def)
  ultimately show ?thesis
    by (auto simp: scanned_def scanComment_def Let_def mkToken_def advanced_def)
qed

lemma scanned_scanValueToEndOfLine:
  assumes "pos l < length (input l)" "input l ! pos l \<noteq> CHR 0x0A"
  shows "scanned l (scanValueToEndOfLine l)"
proof -
  from assms have "scanValue_loop l = scanValue_loop (advance l)"
    by (subst scanValue_loop.simps) simp
  moreover from assms(1) have a: "advanced l (advance l)" "pos (advance l) = pos l + 1"
    using advanced_advance_strict by blast+
  moreover from a have "advanced (advance l) (scanValue_loop (advance l))"
    by (intro advanced_scanValue_loop) (simp add: advanced_def)
  ultimately show ?thesis
    by (auto simp: scanned_def scanValueToEndOfLine_def Let_def mkToken_def advanced_def)
qed

lemma scanned_scanWhitespace:
  assumes "pos l < length (input l)" "isWhitespace (input l ! pos l)"
  shows "scanned l (scanWhitespace l)"
proof -
  from assms have "scanWhitespace_loop l = scanWhitespace_loop (advance l)"
    by (subst scanWhitespace_loop.simps) simp
  moreover from assms(1) have a: "advanced l (advance l)" "pos (advance l) = pos l + 1"
    using advanced_advance_strict by blast+
  moreover from a have "advanced (advance l) (scanWhitespace_loop (advance l))"
    by (intro advanced_scanWhitespace_loop) (simp add: advanced_def)
  ultimately show ?thesis
    by (auto simp: scanned_def scanWhitespace_def Let_def mkToken_def advanced_def)
qed

lemma scanned_scanString:
  assumes "pos l < length (input l)"
  shows "scanned l (scanString quote l)"
proof -
  from assms have a: "advanced l (advance l)" "pos (advance l) = pos l + 1"
    using advanced_advance_strict by blast+
  then have "advanced (advance l) (scanString_loop quote (advance l))"
    by (intro advanced_scanString_loop) (simp add: advanced_def)
  with a show ?thesis
    by (auto simp: scanned_def scanString_def Let_def mkToken_def advanced_def)
qed

lemma scanWord_loop_strict:
  assumes "pos l < length (input l)" "\<not> isWhitespace (input l ! pos l)"
    "input l ! pos l \<noteq> CHR 0x22" "input l ! pos l \<noteq> CHR 0x27"
  shows "advanced l (scanWord_loop l) \<and> pos l < pos (scanWord_loop l)"
proof -
  from assms have "scanWord_loop l = scanWord_loop (advance l)"
    by (subst scanWord_loop.simps) simp
  moreover from assms(1) have a: "advanced l (advance l)" "pos (advance l) = pos l + 1"
    using advanced_advance_strict by blast+
  moreover from a have "advanced (advance l) (scanWord_loop (advance l))"
    by (intro advanced_scanWord_loop) (simp add: advanced_def)
  ultimately show ?thesis by (auto simp: advanced_def)
qed

lemma scanned_scanWord:
  assumes "pos l < length (input l)" "\<not> isWhitespace (input l ! pos l)"
    "input l ! pos l \<noteq> CHR 0x22" "input l ! pos l \<noteq> CHR 0x27"
  shows "scanned l (scanWord l)"
proof -
  let ?l1 = "scanWord_loop l"
  let ?w = "slice (input ?l1) (pos l) (pos ?l1)"
  from scanWord_loop_strict [OF assms]
  have a: "input ?l1 = input l" "pos l < pos ?l1" "pos ?l1 \<le> length (input l)"
    by (simp_all add: advanced_def)
  have "scanWord l =
      (\<lparr>Type = fst (classifyWord ?l1 ?w), Value = ?w, Line = line l, Column = col l\<rparr>,
       snd (classifyWord ?l1 ?w))"
    by (simp add: scanWord_def Let_def split_beta)
  with a classifyWord_cursor [of ?l1 ?w] show ?thesis by (simp add: scanned_def)
qed

lemma scanned_nextToken:
  assumes "pos l < length (input l)"
  shows "scanned l (nextToken l)"
proof -
  let ?ch = "input l ! pos l"
  let ?l0 = "l\<lparr>expectingValue := False\<rparr>"
  have l0: "pos ?l0 < length (input ?l0)" "input ?l0 = input l" "pos ?l0 = pos l"
    using assms by simp_all
  consider (comment) "?ch = CHR ''!'' \<and> col l = 1"
    | (dq) "\<not> (?ch = CHR ''!'' \<and> col l = 1)" "?ch = CHR 0x22"
    | (sq) "\<not> (?ch = CHR ''!'' \<and> col l = 1)" "?ch \<noteq> CHR 0x22" "?ch = CHR 0x27"
    | (ws) "\<not> (?ch = CHR ''!'' \<and> col l = 1)" "?ch \<noteq> CHR 0x22" "?ch \<noteq> CHR 0x27"
        "isWhitespace ?ch"
    | (val) "\<not> (?ch = CHR ''!'' \<and> col l = 1)" "?ch \<noteq> CHR 0x22" "?ch \<noteq> CHR 0x27"
        "\<not> isWhitespace ?ch" "expectingValue l"
    | (word) "\<not> (?ch = CHR ''!'' \<and> col l = 1)" "?ch \<noteq> CHR 0x22" "?ch \<noteq> CHR 0x27"
        "\<not> isWhitespace ?ch" "\<not> expectingValue l"
    by blast
  then show ?thesis
  proof cases
    case comment
    then have "nextToken l = scanComment l" using assms by (simp add: nextToken_def)
    moreover from comment have "?ch \<noteq> CHR 0x0A" by simp
    ultimately show ?thesis using scanned_scanComment [OF assms] by simp
  next
    case dq
    from scanned_scanString [OF l0(1), of "CHR 0x22"] have "scanned l (scanString (CHR 0x22) ?l0)"
      by (simp add: scanned_def)
    with dq assms show ?thesis
      by (cases "scanString (CHR 0x22) ?l0") (auto simp: nextToken_def scanned_def)
  next
    case sq
    from scanned_scanString [OF l0(1), of "CHR 0x27"] have "scanned l (scanString (CHR 0x27) ?l0)"
      by (simp add: scanned_def)
    with sq assms show ?thesis
      by (cases "scanString (CHR 0x27) ?l0") (auto simp: nextToken_def scanned_def)
  next
    case ws
    then have "nextToken l = scanWhitespace l" using assms by (auto simp: nextToken_def)
    with ws scanned_scanWhitespace [OF assms] show ?thesis by simp
  next
    case val
    then have "nextToken l = scanValueToEndOfLine ?l0" using assms by (auto simp: nextToken_def)
    moreover from val have "input ?l0 ! pos ?l0 \<noteq> CHR 0x0A" by (auto simp: isWhitespace_def)
    from scanned_scanValueToEndOfLine [OF l0(1) this]
    have "scanned l (scanValueToEndOfLine ?l0)" by (simp add: scanned_def)
    ultimately show ?thesis by simp
  next
    case word
    then have "nextToken l = scanWord l" using assms by (auto simp: nextToken_def)
    with word scanned_scanWord [OF assms] show ?thesis by simp
  qed
qed

subsection \<open>\<^verbatim>\<open>Tokenize\<close> and \<^verbatim>\<open>tryTokenizePrompt\<close>\<close>

text \<open>The \<^verbatim>\<open>for l.pos < len(l.input)\<close> loop of \<^verbatim>\<open>Tokenize\<close>.\<close>

function Tokenize_loop :: "Lexer \<Rightarrow> Token list \<Rightarrow> Token list" where
  "Tokenize_loop l tokens =
     (if pos l < length (input l) then
        (let r = nextToken l
         in Tokenize_loop (snd r)
              (if Type (fst r) \<noteq> TokenText \<or> Value (fst r) \<noteq> []
               then tokens @ [fst r] else tokens))
      else tokens)"
  by pat_completeness auto
termination
proof (relation "measure (\<lambda>(l, tokens). length (input l) - pos l)")
  show "wf (measure (\<lambda>(l, tokens). length (input l) - pos l))" by simp
next
  fix l :: Lexer and tokens :: "Token list" and r :: "Token \<times> Lexer"
  assume lt: "pos l < length (input l)" and r: "r = nextToken l"
  from scanned_nextToken [OF lt]
  have "input (snd r) = input l" "pos l < pos (snd r)"
    by (simp_all add: scanned_def r)
  with lt
  show "((snd r, if Type (fst r) \<noteq> TokenText \<or> Value (fst r) \<noteq> [] then tokens @ [fst r]
                 else tokens), l, tokens)
        \<in> measure (\<lambda>(l, tokens). length (input l) - pos l)"
    by (simp add: diff_less_mono2)
qed

declare Tokenize_loop.simps [simp del]

text \<open>
  \<^verbatim>\<open>tryTokenizePrompt\<close> after its pattern has matched: \<open>matches\<close> are the groups and
  \<open>cmdTokens\<close> the tokens of the command after the prompt (read only when group 5 is not
  empty). \<open>retarget\<close> is the loop that appends the command tokens with their new columns.
\<close>

fun retarget :: "Token list \<Rightarrow> int \<Rightarrow> Token list \<Rightarrow> Token list \<times> int" where
  "retarget tokens c [] = (tokens, c)"
| "retarget tokens c (tok # cmdTokens) =
     retarget (tokens @ [tok\<lparr>Column := c\<rparr>]) (c + int (length (Value tok))) cmdTokens"

definition promptPrefix :: "string list \<Rightarrow> Token list \<times> int" where
  "promptPrefix matches =
     (let (tokens1, col1) =
            (if matches ! 1 \<noteq> []
             then ([\<lparr>Type = TokenText, Value = matches ! 1, Line = 1, Column = 1\<rparr>],
                   1 + int (length (matches ! 1)))
             else ([], 1));
          tokens2 = tokens1 @
            [\<lparr>Type = TokenPromptHost, Value = matches ! 2, Line = 1, Column = col1\<rparr>];
          col2 = col1 + int (length (matches ! 2));
          (tokens3, col3) =
            (if matches ! 3 \<noteq> []
             then (tokens2 @
                     [\<lparr>Type = TokenPromptMode, Value = matches ! 3, Line = 1, Column = col2\<rparr>],
                   col2 + int (length (matches ! 3)))
             else (tokens2, col2));
          promptTokenType = (if matches ! 4 = ''#'' then TokenPromptConf else TokenPromptOper)
      in (tokens3 @ [\<lparr>Type = promptTokenType, Value = matches ! 4, Line = 1, Column = col3\<rparr>],
          col3 + 1))"

definition assemblePrompt :: "string \<Rightarrow> string list \<Rightarrow> Token list \<Rightarrow> Token list" where
  "assemblePrompt inp matches cmdTokens =
     (let (tokens4, col4) = promptPrefix matches;
          (tokens5, col5) =
            (if matches ! 5 \<noteq> []
             then retarget
                    (tokens4 @ [\<lparr>Type = TokenText, Value = '' '', Line = 1, Column = col4\<rparr>])
                    (col4 + 1) cmdTokens
             else (tokens4, col4))
      in if HasSuffix inp [CHR 0x0A]
         then tokens5 @ [\<lparr>Type = TokenText, Value = [CHR 0x0A], Line = 1, Column = col5\<rparr>]
         else tokens5)"

function Tokenize :: "Lexer \<Rightarrow> Token list"
  and tryTokenizePrompt :: "string \<Rightarrow> Token list option" where
  "Tokenize l =
     (case tryTokenizePrompt (input l) of
        Some promptTokens \<Rightarrow> promptTokens
      | None \<Rightarrow> Tokenize_loop l [])"
| "tryTokenizePrompt inp =
     (case FindStringSubmatch promptPattern 5 inp of
        None \<Rightarrow> None
      | Some matches \<Rightarrow>
          Some (assemblePrompt inp matches
                  (if matches ! 5 \<noteq> [] then Tokenize (New (TrimSpace (matches ! 5))) else [])))"
  by pat_completeness auto
termination
proof (relation "measure (\<lambda>x. case x of Inl l \<Rightarrow> 2 * length (input l) + 1
                                        | Inr inp \<Rightarrow> 2 * length inp)")
  show "wf (measure (\<lambda>x. case x of Inl l \<Rightarrow> 2 * length (input l) + 1
                                   | Inr inp \<Rightarrow> 2 * length inp))" by simp
next
  fix l :: Lexer
  show "(Inr (input l), Inl l)
        \<in> measure (\<lambda>x. case x of Inl l \<Rightarrow> 2 * length (input l) + 1 | Inr inp \<Rightarrow> 2 * length inp)"
    by simp
next
  fix inp :: string and matches :: "string list"
  assume "FindStringSubmatch promptPattern 5 inp = Some matches"
  then have "length (matches ! 5) < length inp" by (rule prompt_command_shorter)
  with length_TrimSpace [of "matches ! 5"]
  show "(Inl (New (TrimSpace (matches ! 5))), Inr inp)
        \<in> measure (\<lambda>x. case x of Inl l \<Rightarrow> 2 * length (input l) + 1 | Inr inp \<Rightarrow> 2 * length inp)"
    by (simp add: New_def)
qed

declare Tokenize.simps [simp del] tryTokenizePrompt.simps [simp del]

text \<open>\<^verbatim>\<open>IsPrompt\<close>\<close>

definition IsPrompt :: "string \<Rightarrow> bool" where
  "IsPrompt inp = MatchString promptPattern (TrimSpace inp)"


section \<open>theme.go: colours\<close>

definition esc :: "string \<Rightarrow> string" where
  "esc s = CHR 0x1B # s"

definition Reset :: string where "Reset = esc ''[0m''"
definition Bold :: string where "Bold = esc ''[1m''"
definition Dim :: string where "Dim = esc ''[2m''"
definition Italic :: string where "Italic = esc ''[3m''"

text \<open>\<^verbatim>\<open>strconv.Itoa\<close> on the colour components, which are not negative.\<close>

fun digits :: "nat \<Rightarrow> nat \<Rightarrow> string" where
  "digits 0 n = []"
| "digits (Suc fuel) n =
     (if n < 10 then [''0123456789'' ! n]
      else digits fuel (n div 10) @ [''0123456789'' ! (n mod 10)])"

definition Itoa :: "nat \<Rightarrow> string" where
  "Itoa n = digits (Suc n) n"

definition RGB :: "nat \<Rightarrow> nat \<Rightarrow> nat \<Rightarrow> string" where
  "RGB r g b = esc ''[38;2;'' @ Itoa r @ '';'' @ Itoa g @ '';'' @ Itoa b @ ''m''"

record Palette =
  Foreground :: string
  Comment :: string
  Command :: string
  Section :: string
  Protocol :: string
  Action :: string
  Interface :: string
  IP :: string
  Number :: string
  String :: string
  Keyword :: string
  Operator :: string
  ASN :: string
  Community :: string
  Value' :: string
  MAC :: string
  Negation :: string
  StateGood :: string
  StateBad :: string
  StateWarning :: string
  Duration :: string
  RouteProtocol :: string
  PromptHost :: string
  PromptMode :: string
  PromptOper :: string
  PromptConf :: string

text \<open>A \<^verbatim>\<open>Theme\<close> is its map \<^verbatim>\<open>colors\<close>; the lock is left out.\<close>

type_synonym Theme = "TokenType \<rightharpoonup> string"

definition buildTheme :: "Palette \<Rightarrow> Theme" where
  "buildTheme p = map_of
     [(TokenCommand, Bold @ Command p), (TokenSection, Bold @ Section p),
      (TokenProtocol, Protocol p), (TokenAction, Bold @ Action p),
      (TokenInterface, Bold @ Interface p), (TokenIPv4, IP p), (TokenIPv4Prefix, IP p),
      (TokenIPv6, IP p), (TokenIPv6Prefix, IP p), (TokenMAC, MAC p), (TokenNumber, Number p),
      (TokenString, String p), (TokenComment, Italic @ Comment p),
      (TokenIdentifier, Foreground p), (TokenKeyword, Keyword p), (TokenOperator, Operator p),
      (TokenASN, ASN p), (TokenCommunity, Community p), (TokenValue, Value' p),
      (TokenNegation, Bold @ Negation p), (TokenText, []),
      (TokenStateGood, Bold @ StateGood p), (TokenStateBad, Bold @ StateBad p),
      (TokenStateWarning, Bold @ StateWarning p), (TokenStateNeutral, Dim @ Comment p),
      (TokenColumnHeader, Bold @ Foreground p), (TokenStatusSymbol, Bold @ Protocol p),
      (TokenTimeDuration, Duration p), (TokenPercentage, StateGood p),
      (TokenByteSize, Protocol p), (TokenRouteProtocol, Bold @ RouteProtocol p),
      (TokenPromptHost, Bold @ PromptHost p), (TokenPromptMode, PromptMode p),
      (TokenPromptOper, Bold @ PromptOper p), (TokenPromptConf, Bold @ PromptConf p)]"

definition TokyoNightTheme :: Theme where
  "TokyoNightTheme =
     (let foreground = RGB 192 202 245; comment = RGB 86 95 137; red = RGB 247 118 142;
          green = RGB 158 206 106; yellow = RGB 224 175 104; blue = RGB 122 162 247;
          magenta = RGB 187 154 247; cyan = RGB 125 207 255; orange = RGB 255 158 100;
          purple = RGB 157 124 216; teal = RGB 115 218 202
      in buildTheme
           \<lparr>Foreground = foreground, Comment = comment, Command = magenta, Section = blue,
            Protocol = cyan, Action = green, Interface = orange, IP = teal, Number = purple,
            String = green, Keyword = yellow, Operator = blue, ASN = orange,
            Community = magenta, Value' = cyan, MAC = cyan, Negation = red,
            StateGood = green, StateBad = red, StateWarning = yellow, Duration = orange,
            RouteProtocol = purple, PromptHost = teal, PromptMode = yellow,
            PromptOper = green, PromptConf = red\<rparr>)"

definition DefaultTheme :: Theme where
  "DefaultTheme = TokyoNightTheme"

definition GetColor :: "Theme \<Rightarrow> TokenType \<Rightarrow> string" where
  "GetColor t tokenType = (case t tokenType of Some color \<Rightarrow> color | None \<Rightarrow> [])"

section \<open>highlighter.go: the highlighter\<close>

text \<open>The \<^verbatim>\<open>Highlighter\<close> without its lock; \<open>NewHighlighter\<close> is its \<^verbatim>\<open>New\<close>.\<close>

record Highlighter =
  theme :: Theme
  enabled :: bool

definition NewHighlighter :: Highlighter where
  "NewHighlighter = \<lparr>theme = DefaultTheme, enabled = True\<rparr>"

definition NewWithTheme :: "Theme \<Rightarrow> Highlighter" where
  "NewWithTheme t = \<lparr>theme = t, enabled = True\<rparr>"

definition Enable :: "Highlighter \<Rightarrow> Highlighter" where
  "Enable h = h\<lparr>enabled := True\<rparr>"

definition Disable :: "Highlighter \<Rightarrow> Highlighter" where
  "Disable h = h\<lparr>enabled := False\<rparr>"

definition IsEnabled :: "Highlighter \<Rightarrow> bool" where
  "IsEnabled h = enabled h"

text \<open>\<^verbatim>\<open>Toggle\<close> returns the new state and the highlighter it leaves.\<close>

definition Toggle :: "Highlighter \<Rightarrow> bool \<times> Highlighter" where
  "Toggle h = (\<not> enabled h, h\<lparr>enabled := \<not> enabled h\<rparr>)"

text \<open>\<^verbatim>\<open>renderTokens\<close>: the loop writes into \<open>buf\<close>.\<close>

fun renderTokens_loop :: "Theme \<Rightarrow> string \<Rightarrow> Token list \<Rightarrow> string" where
  "renderTokens_loop t buf [] = buf"
| "renderTokens_loop t buf (token # tokens) =
     renderTokens_loop t
       (if GetColor t (Type token) \<noteq> []
        then buf @ GetColor t (Type token) @ Value token @ Reset
        else buf @ Value token)
       tokens"

definition renderTokens :: "Highlighter \<Rightarrow> Token list \<Rightarrow> string" where
  "renderTokens h tokens = renderTokens_loop (theme h) [] tokens"

definition highlightTokensCleaned :: "Highlighter \<Rightarrow> string \<Rightarrow> string" where
  "highlightTokensCleaned h cleaned = renderTokens h (Tokenize (New cleaned))"

fun highlightTokens_loop :: "Highlighter \<Rightarrow> string \<Rightarrow> segment list \<Rightarrow> string" where
  "highlightTokens_loop h buf [] = buf"
| "highlightTokens_loop h buf (seg # segments) =
     highlightTokens_loop h
       (if isEscape seg then buf @ text' seg
        else buf @ highlightTokensCleaned h (text' seg))
       segments"

definition highlightTokens :: "Highlighter \<Rightarrow> string \<Rightarrow> string" where
  "highlightTokens h inp = highlightTokens_loop h [] (extractSegments inp)"

subsection \<open>The heuristic gate\<close>

definition ciscoSpecificKeywords :: "string list" where
  "ciscoSpecificKeywords =
     [''switchport mode'', ''ip address '', ''ip route '', ''router ospf'', ''router bgp'',
      ''router eigrp'', ''transport input'', ''exec-timeout'', ''channel-group'',
      ''spanning-tree portfast'']"

definition isValidHostname :: "string \<Rightarrow> bool" where
  "isValidHostname s =
     (if length s = 0 then False
      else list_all (\<lambda>ch. (97 \<le> byte ch \<and> byte ch \<le> 122) \<or> (65 \<le> byte ch \<and> byte ch \<le> 90) \<or>
                            (48 \<le> byte ch \<and> byte ch \<le> 57) \<or> ch = CHR ''-'' \<or> ch = CHR ''.'' \<or>
                            ch = CHR ''_'') s)"

text \<open>
  \<^verbatim>\<open>strings.LastIndex\<close> and \<^verbatim>\<open>strings.IndexByte\<close> for one byte: \<open>None\<close> is Go's \<^verbatim>\<open>-1\<close>.
\<close>

fun IndexByte :: "string \<Rightarrow> char \<Rightarrow> nat option" where
  "IndexByte [] c = None"
| "IndexByte (x # xs) c =
     (if x = c then Some 0 else map_option Suc (IndexByte xs c))"

definition LastIndex :: "string \<Rightarrow> char \<Rightarrow> nat option" where
  "LastIndex s c =
     (case IndexByte (rev s) c of None \<Rightarrow> None | Some k \<Rightarrow> Some (length s - 1 - k))"

definition isPromptLine :: "string \<Rightarrow> bool" where
  "isPromptLine inp =
     (if IsPrompt inp then True
      else
        (let trimmed = TrimSpace inp
         in if length trimmed > 1 \<and>
               (last trimmed = CHR ''>'' \<or> last trimmed = CHR ''#'')
            then
              (let prefix0 = slice trimmed 0 (length trimmed - 1);
                   prefix1 =
                     (case LastIndex prefix0 (CHR '')'') of
                        None \<Rightarrow> prefix0
                      | Some idx \<Rightarrow>
                          (case LastIndex prefix0 (CHR ''('') of
                             None \<Rightarrow> prefix0
                           | Some pIdx \<Rightarrow> slice prefix0 0 pIdx))
               in length prefix1 > 0 \<and> isValidHostname prefix1)
            else False))"

definition hasConfigIndicators :: "string \<Rightarrow> bool" where
  "hasConfigIndicators lower = list_ex (\<lambda>indicator. Contains lower indicator) ConfigIndicators"

definition hasShowIndicators :: "string \<Rightarrow> bool" where
  "hasShowIndicators lower = list_ex (\<lambda>indicator. Contains lower indicator) ShowIndicators"

definition hasCiscoKeywords :: "string \<Rightarrow> bool" where
  "hasCiscoKeywords lower = list_ex (\<lambda>kw. Contains lower kw) ciscoSpecificKeywords"

text \<open>
  The loop of \<^verbatim>\<open>hasCiscoSeparators\<close> over the lines of the input, \<open>i\<close> being the start of
  the next line and \<open>bangCount\<close> the number of lines seen that are a lone \<^verbatim>\<open>!\<close>.
\<close>

function hasCiscoSeparators_loop :: "string \<Rightarrow> nat \<Rightarrow> nat \<Rightarrow> bool" where
  "hasCiscoSeparators_loop inp i bangCount =
     (if i < length inp then
        (case IndexByte (drop i inp) (CHR 0x0A) of
           None \<Rightarrow>
             (if TrimSpace (drop i inp) = ''!'' \<and> bangCount + 1 \<ge> 2 then True
              else hasCiscoSeparators_loop inp (length inp)
                     (if TrimSpace (drop i inp) = ''!'' then bangCount + 1 else bangCount))
         | Some e \<Rightarrow>
             (if TrimSpace (slice inp i (i + e)) = ''!'' \<and> bangCount + 1 \<ge> 2 then True
              else hasCiscoSeparators_loop inp (i + e + 1)
                     (if TrimSpace (slice inp i (i + e)) = ''!'' then bangCount + 1
                      else bangCount)))
      else False)"
  by pat_completeness auto
termination
  by (relation "measure (\<lambda>(inp, i, bangCount). length inp - i)") auto

declare hasCiscoSeparators_loop.simps [simp del]

definition hasCiscoSeparators :: "string \<Rightarrow> bool" where
  "hasCiscoSeparators inp = hasCiscoSeparators_loop inp 0 0"

definition looksLikeCisco :: "Highlighter \<Rightarrow> string \<Rightarrow> bool" where
  "looksLikeCisco h inp =
     (if isPromptLine inp then True
      else if hasConfigIndicators (ToLower inp) then True
      else if hasShowIndicators (ToLower inp) then True
      else if hasCiscoSeparators inp then True
      else if hasCiscoKeywords (ToLower inp) then True
      else False)"

subsection \<open>The entry points\<close>

definition Highlight :: "Highlighter \<Rightarrow> string \<Rightarrow> string" where
  "Highlight h inp =
     (if \<not> IsEnabled h \<or> inp = [] then inp
      else if \<not> looksLikeCisco h (StripANSI inp) then inp
      else highlightTokensCleaned h (StripANSI inp))"

definition HighlightForced :: "Highlighter \<Rightarrow> string \<Rightarrow> string" where
  "HighlightForced h inp =
     (if \<not> IsEnabled h \<or> inp = [] then inp else highlightTokens h inp)"

definition HighlightShowOutput :: "Highlighter \<Rightarrow> string \<Rightarrow> string" where
  "HighlightShowOutput h inp =
     (if \<not> IsEnabled h \<or> inp = [] then inp
      else renderTokens h (Tokenize (SetParseMode ParseModeShow (New inp))))"

definition HasANSI :: "string \<Rightarrow> bool" where
  "HasANSI inp = Contains inp (esc ''['')"


section \<open>Definitions used to state the claims\<close>


text \<open>
  A word falls through the checks of \<^verbatim>\<open>classifyConfigWord\<close>, or of
  \<^verbatim>\<open>classifyShowWord\<close>, when none of them applies to it and the shared patterns decide.
\<close>

definition fallsThroughConfig :: "string \<Rightarrow> bool" where
  "fallsThroughConfig w \<longleftrightarrow>
     ToLower w \<noteq> ''no'' \<and> \<not> MatchString asnPattern w \<and> ToLower w \<notin> set commands \<and>
     ToLower w \<notin> set sections \<and> ToLower w \<notin> set protocols \<and> ToLower w \<notin> set actions \<and>
     ToLower w \<notin> set operators \<and> ToLower w \<notin> set keywords'"

definition fallsThroughShow :: "string \<Rightarrow> bool" where
  "fallsThroughShow w \<longleftrightarrow>
     ToLower w \<notin> set statesGoodCompound \<and> ToLower w \<notin> set statesBadCompound \<and>
     ToLower w \<notin> set statesGood \<and> ToLower w \<notin> set statesBad \<and>
     ToLower w \<notin> set statesWarning \<and> ToLower w \<notin> set statesNeutral \<and>
     \<not> (length w \<le> 2 \<and> w \<in> set statusSymbols) \<and> \<not> MatchString timeDurationPattern w \<and>
     \<not> MatchString percentagePattern w \<and> \<not> MatchString byteSizePattern w \<and>
     \<not> MatchString routeProtocolPattern w \<and> ToLower w \<notin> set columnHeaders"

text \<open>
  For the claim on mode stability: \<open>lexerAfter n l\<close> is the lexer after \<open>n\<close> scan steps
  (\<^verbatim>\<open>nextToken\<close> calls) from \<open>l\<close>, and a lexer is \<open>unresolved\<close> while its mode is Auto and
  no detection has run.
\<close>

definition lexerAfter :: "nat \<Rightarrow> Lexer \<Rightarrow> Lexer" where
  "lexerAfter n l = ((\<lambda>l. snd (nextToken l)) ^^ n) l"

definition unresolved :: "Lexer \<Rightarrow> bool" where
  "unresolved l \<longleftrightarrow> parseMode l = ParseModeAuto \<and> \<not> detectedMode l"

text \<open>A lexer that has just read the keyword \<^verbatim>\<open>community\<close>, for the claim on communities.\<close>

definition afterCommunity :: Lexer where
  "afterCommunity = (New ''community 65000:100'')\<lparr>pos := 10, col := 11, parseMode := ParseModeConfig,
     detectedMode := True, lastToken := ''community''\<rparr>"

section \<open>Verified properties\<close>

subsection \<open>The segmenter\<close>

























subsection \<open>The mode detector\<close>






subsection \<open>Interface names\<close>

lemma classifyWord_falls_through:
  assumes "fallsThroughConfig w" "fallsThroughShow w"
  shows "fst (classifyWord l w) = classifySharedPatterns (resolveMode l) w"
  using assms
  by (auto simp: classifyWord_def classifyConfigWord_def classifyShowWord_def Let_def
      fallsThroughConfig_def fallsThroughShow_def)

lemma classifyWord_interface:
  assumes "fallsThroughConfig w" "fallsThroughShow w" "MatchString interfacePattern w"
  shows "fst (classifyWord l w) = TokenInterface"
  using classifyWord_falls_through [OF assms(1,2)] assms(3)
  by (simp add: classifySharedPatterns_def)

lemma interface_GigabitEthernet:
  "fallsThroughConfig ''GigabitEthernet0/0/0.100'' \<and>
   fallsThroughShow ''GigabitEthernet0/0/0.100'' \<and>
   MatchString interfacePattern ''GigabitEthernet0/0/0.100''"
  by code_simp

lemma interface_Gi:
  "fallsThroughConfig ''Gi0/0/0.10'' \<and> fallsThroughShow ''Gi0/0/0.10'' \<and>
   MatchString interfacePattern ''Gi0/0/0.10''"
  by code_simp

lemma interface_Po:
  "fallsThroughConfig ''Po1'' \<and> fallsThroughShow ''Po1'' \<and> MatchString interfacePattern ''Po1''"
  by code_simp

lemma interface_Lo:
  "fallsThroughConfig ''Lo0'' \<and> fallsThroughShow ''Lo0'' \<and> MatchString interfacePattern ''Lo0''"
  by code_simp

lemma interface_BDI:
  "fallsThroughConfig ''BDI1'' \<and> fallsThroughShow ''BDI1'' \<and>
   MatchString interfacePattern ''BDI1''"
  by code_simp

lemma not_interface_Ethernet:
  "fallsThroughConfig ''Ethernet'' \<and> fallsThroughShow ''Ethernet'' \<and>
   \<not> MatchString interfacePattern ''Ethernet''"
  by code_simp

text \<open>
  Claim C8. Whatever the state of the lexer (its mode, detected or not, and its context),
  word classification gives \<^verbatim>\<open>GigabitEthernet0/0/0.100\<close>, \<^verbatim>\<open>Gi0/0/0.10\<close>, \<^verbatim>\<open>Po1\<close>,
  \<^verbatim>\<open>Lo0\<close> and \<^verbatim>\<open>BDI1\<close> the type Interface, and does not give it to \<^verbatim>\<open>Ethernet\<close>, a
  prefix with no digits after it, which the interface pattern does not match.
\<close>

theorem interface_grammar_examples:
  "fst (classifyWord l ''GigabitEthernet0/0/0.100'') = TokenInterface \<and>
   fst (classifyWord l ''Gi0/0/0.10'') = TokenInterface \<and>
   fst (classifyWord l ''Po1'') = TokenInterface \<and>
   fst (classifyWord l ''Lo0'') = TokenInterface \<and>
   fst (classifyWord l ''BDI1'') = TokenInterface \<and>
   fst (classifyWord l ''Ethernet'') \<noteq> TokenInterface \<and>
   \<not> MatchString interfacePattern ''Ethernet''"
proof -
  have "classifySharedPatterns (resolveMode l) ''Ethernet'' \<noteq> TokenInterface"
    using not_interface_Ethernet by (simp add: classifySharedPatterns_def)
  then have "fst (classifyWord l ''Ethernet'') \<noteq> TokenInterface"
    using not_interface_Ethernet classifyWord_falls_through [of "''Ethernet''" l] by simp
  then show ?thesis
    using interface_GigabitEthernet interface_Gi interface_Po interface_Lo interface_BDI
      not_interface_Ethernet classifyWord_interface
    by blast
qed

theorem interface_grammar_examples_witness:
  "fst (classifyWord (New ''Po1'') ''Po1'') = TokenInterface \<and>
   fst (classifyWord (SetParseMode ParseModeShow (New ''Lo0'')) ''Lo0'') = TokenInterface \<and>
   fst (classifyWord (SetParseMode ParseModeConfig (New ''Ethernet'')) ''Ethernet'')
     \<noteq> TokenInterface"
  using interface_grammar_examples [of "New ''Po1''"]
    interface_grammar_examples [of "SetParseMode ParseModeShow (New ''Lo0'')"]
    interface_grammar_examples [of "SetParseMode ParseModeConfig (New ''Ethernet'')"]
  by blast

subsection \<open>The enabled flag\<close>

text \<open>
  Claim C10. A highlighter that \<^verbatim>\<open>Disable\<close> has switched off, or that \<^verbatim>\<open>Toggle\<close> has
  switched off from the enabled state, returns every input unchanged from \<^verbatim>\<open>Highlight\<close>,
  \<^verbatim>\<open>HighlightForced\<close> and \<^verbatim>\<open>HighlightShowOutput\<close>; the empty input is returned unchanged
  by any highlighter.
\<close>

theorem disabled_highlighter_returns_input:
  "Highlight (Disable h) inp = inp \<and> HighlightForced (Disable h) inp = inp \<and>
   HighlightShowOutput (Disable h) inp = inp \<and>
   (IsEnabled h \<longrightarrow>
      Highlight (snd (Toggle h)) inp = inp \<and> HighlightForced (snd (Toggle h)) inp = inp \<and>
      HighlightShowOutput (snd (Toggle h)) inp = inp) \<and>
   Highlight h [] = [] \<and> HighlightForced h [] = [] \<and> HighlightShowOutput h [] = []"
  by (simp add: Highlight_def HighlightForced_def HighlightShowOutput_def IsEnabled_def
      Disable_def Toggle_def)

theorem disabled_highlighter_returns_input_witness:
  "IsEnabled NewHighlighter \<and>
   Highlight (Disable NewHighlighter) ''interface GigabitEthernet0/0/0'' =
     ''interface GigabitEthernet0/0/0'' \<and>
   HighlightForced (snd (Toggle NewHighlighter)) ''no shutdown'' = ''no shutdown'' \<and>
   HighlightShowOutput (snd (Toggle NewHighlighter)) ''up'' = ''up'' \<and>
   Highlight NewHighlighter [] = []"
proof -
  have e: "IsEnabled NewHighlighter" by (simp add: IsEnabled_def NewHighlighter_def)
  from disabled_highlighter_returns_input [of NewHighlighter "''interface GigabitEthernet0/0/0''"]
  have a: "Highlight (Disable NewHighlighter) ''interface GigabitEthernet0/0/0'' =
     ''interface GigabitEthernet0/0/0''" by blast
  from e disabled_highlighter_returns_input [of NewHighlighter "''no shutdown''"]
  have b: "HighlightForced (snd (Toggle NewHighlighter)) ''no shutdown'' = ''no shutdown''"
    by blast
  from e disabled_highlighter_returns_input [of NewHighlighter "''up''"]
  have c: "HighlightShowOutput (snd (Toggle NewHighlighter)) ''up'' = ''up''" by blast
  from disabled_highlighter_returns_input [of NewHighlighter "[]"]
  have d: "Highlight NewHighlighter [] = []" by blast
  from e a b c d show ?thesis by blast
qed

end
